theory Spec2Isabelle
  imports Main
begin

section \<open>JavaScript values used by the evaluators\<close>

text \<open>
  The evaluators of \<^verbatim>\<open>src/utils/renderer-contract.ts\<close> and
  \<^verbatim>\<open>src/rules/taste/index.ts\<close> work on documents read from JSON. A value that may be
  \<^verbatim>\<open>undefined\<close> or \<^verbatim>\<open>null\<close> is an \<open>option\<close>; a \<^verbatim>\<open>Record<string, T>\<close> is a map on its own
  properties, read by a lookup that also finds the members it inherits; an array is a list. The numbers of the documents are modelled as integers
  (font sizes, spacing steps, counts): comparison and subtraction are then exact, and
  \<^verbatim>\<open>String(n)\<close> is the plain decimal numeral, as it is for the integers below \<open>10^21\<close>
  in magnitude. Fractional values, IEEE rounding and the exponent notation of larger
  numbers are outside the model.
\<close>

type_synonym number = int

fun digits :: "nat \<Rightarrow> string" where
  "digits n =
     (if n < 10 then [''0123456789'' ! n]
      else digits (n div 10) @ [''0123456789'' ! (n mod 10)])"

declare digits.simps [simp del]

text \<open>\<^verbatim>\<open>String(n)\<close> and the template literal \<^verbatim>\<open>${n}\<close> for a number.\<close>

definition String_number :: "number \<Rightarrow> string" where
  "String_number i = (if i < 0 then CHR ''-'' # digits (nat (- i)) else digits (nat i))"

text \<open>
  A \<^verbatim>\<open>Set\<close> keeps its elements in insertion order, each once: \<open>Set_add\<close> is
  \<^verbatim>\<open>Set.prototype.add\<close>, \<open>new_Set\<close> is \<^verbatim>\<open>new Set(iterable)\<close>, \<open>Set_has\<close> is
  \<^verbatim>\<open>has\<close> and \<open>Set_size\<close> is \<^verbatim>\<open>size\<close>.
\<close>

definition Set_add :: "'a list \<Rightarrow> 'a \<Rightarrow> 'a list" where
  "Set_add s x = (if x \<in> set s then s else s @ [x])"

definition new_Set :: "'a list \<Rightarrow> 'a list" where
  "new_Set xs = foldl Set_add [] xs"

definition Set_has :: "'a list \<Rightarrow> 'a \<Rightarrow> bool" where
  "Set_has s x = (x \<in> set s)"

definition Set_size :: "'a list \<Rightarrow> nat" where
  "Set_size s = length s"

text \<open>\<^verbatim>\<open>Array.prototype.includes\<close> and \<^verbatim>\<open>Array.prototype.join\<close> on strings.\<close>

definition Array_includes :: "'a list \<Rightarrow> 'a \<Rightarrow> bool" where
  "Array_includes xs x = (x \<in> set xs)"

fun join :: "string \<Rightarrow> string list \<Rightarrow> string" where
  "join sep [] = []"
| "join sep [x] = x"
| "join sep (x # y # ys) = x @ sep @ join sep (y # ys)"

text \<open>
  Truthiness of a \<^verbatim>\<open>string | undefined | null\<close>: only a non-empty string is truthy.
  \<open>or_else a b\<close> is \<^verbatim>\<open>a || b\<close> on such values.
\<close>

definition truthy :: "string option \<Rightarrow> bool" where
  "truthy v = (case v of None \<Rightarrow> False | Some s \<Rightarrow> s \<noteq> [])"

definition or_else :: "string option \<Rightarrow> string option \<Rightarrow> string option" where
  "or_else a b = (if truthy a then a else b)"

section \<open>The host: clock, paths, files\<close>

text \<open>
  What the evaluators take from their host is a parameter of the model: the working
  directory, \<^verbatim>\<open>path.join\<close>, and the clock read by \<^verbatim>\<open>new Date().toISOString()\<close>.
  \<^verbatim>\<open>readJsonFile\<close> of \<^verbatim>\<open>src/utils/fs\<close> and the schema compiler are collaborators that
  may throw, and a call of a member that is no function throws a \<^verbatim>\<open>TypeError\<close>. A throw
  rejects the promise of the evaluator and is the \<open>Inl\<close> of its result.
\<close>

datatype rejection = ReadError string | CompileError string | TypeError string

record sys =
  cwd :: string
  path_join :: "string list \<Rightarrow> string"
  now :: string

datatype status = Passed | Failed

record renderer_identity =
  ri_name :: string
  ri_version :: string
  ri_target :: string

section \<open>Documents (\<^verbatim>\<open>src/types.ts\<close>)\<close>

text \<open>
  Only the fields that an evaluator reads are kept. An object that is read through one
  field only is merged into its parent: \<^verbatim>\<open>taste.typography.roles\<close> is \<open>typography_roles\<close>,
  \<^verbatim>\<open>taste.spacing.values\<close> is \<open>spacing_values\<close>, \<^verbatim>\<open>outputs.constitution.violations\<close> is
  \<open>violations\<close>, and so on. Field names shared by several interfaces carry a prefix.
\<close>

record RendererContract =
  contract_id_of :: string

record RendererMetadata =
  rm_name :: string
  rm_version :: string
  rm_target :: string
  declares_contract :: string

record RendererTokenUsage =
  undeclared :: "string list"

record RendererDeterminism =
  deterministic :: bool
  markers :: "string list"

record RendererOutputs =
  token_usage :: RendererTokenUsage
  violations :: "string list"
  determinism :: RendererDeterminism

record RendererTasteTypographyRole =
  role :: string
  role_size :: number

record RendererTasteColorContrast =
  pair :: string
  ratio :: number

datatype js_values = Numbers "number list" | Strings "string list"

record RendererTasteConsistency =
  mc_radius :: "number list"
  mc_elevation :: "number list"
  mc_motion :: "string list"

record RendererTastePatternUsage =
  usage_pattern :: string
  usage_intent :: string

record RendererTaste =
  typography_roles :: "RendererTasteTypographyRole list"
  spacing_values :: "number list"
  color_tokens :: "string list"
  color_contrast :: "RendererTasteColorContrast list"
  interactions_per_view :: number
  declared_consistency :: RendererTasteConsistency
  patterns_usage :: "RendererTastePatternUsage list"

record RendererOutputManifest =
  contract :: RendererContract
  renderer :: RendererMetadata
  outputs :: RendererOutputs
  taste :: RendererTaste

record RendererRegistryEntry =
  re_name :: string
  re_version :: string
  re_target :: string
  contract_id :: string

record RendererRegistry =
  renderers :: "RendererRegistryEntry list"

record ValidationRuleResult =
  vr_id :: string
  vr_passed :: bool
  vr_message :: string
  vr_counterexample :: "string option"

record RendererValidationReport =
  rv_status :: status
  rv_generated_at :: string
  rv_renderer :: renderer_identity
  rv_rules :: "ValidationRuleResult list"
  rv_errors :: "ValidationRuleResult list"

section \<open>The renderer contract validator (\<^verbatim>\<open>src/utils/renderer-contract.ts\<close>)\<close>

record RendererValidationOptions =
  contractSchemaPath :: "string option"
  registrySchemaPath :: "string option"

text \<open>An \<^verbatim>\<open>ErrorObject\<close> of the schema validator, with the fields that are formatted.\<close>

record ErrorObject =
  instancePath :: string
  keyword :: string
  additionalProperty :: "string option"
  eo_message :: "string option"

text \<open>
  A compiled validator applied to a document gives its verdict and leaves its
  \<^verbatim>\<open>errors\<close> property (\<^verbatim>\<open>null\<close> after a success).
\<close>

type_synonym 'raw validator = "'raw \<Rightarrow> bool \<times> ErrorObject list option"

text \<open>
  The host of the validator: files hold schemas of type \<open>'schema\<close>, documents arrive
  untyped as \<open>'raw\<close>, and the casts \<^verbatim>\<open>manifestRaw as RendererOutputManifest\<close> and
  \<^verbatim>\<open>registryRaw as RendererRegistry\<close> read a document through its typed fields.
\<close>

record ('schema, 'raw) contract_host = sys +
  readJsonFile :: "string \<Rightarrow> rejection + 'schema"
  ajv_compile :: "'schema \<Rightarrow> rejection + 'raw validator"
  as_manifest :: "'raw \<Rightarrow> RendererOutputManifest"
  as_registry :: "'raw \<Rightarrow> RendererRegistry"

definition ruleResult :: "string \<Rightarrow> bool \<Rightarrow> string \<Rightarrow> string option \<Rightarrow> ValidationRuleResult" where
  "ruleResult i p m c =
     \<lparr>vr_id = i, vr_passed = p, vr_message = m, vr_counterexample = c\<rparr>"

definition formatInstancePath :: "string \<Rightarrow> string" where
  "formatInstancePath p =
     (if p = [] then ''(root)''
      else (case map (\<lambda>c. if c = CHR ''/'' then CHR ''.'' else c) p of
              [] \<Rightarrow> []
            | c # cs \<Rightarrow> if c = CHR ''.'' then cs else c # cs))"

definition is_space :: "char \<Rightarrow> bool" where
  "is_space c = (c \<in> set [CHR '' '', CHR 0x09, CHR 0x0A, CHR 0x0B, CHR 0x0C, CHR 0x0D])"

definition trim :: "string \<Rightarrow> string" where
  "trim s = rev (dropWhile is_space (rev (dropWhile is_space s)))"

definition formatSchemaError :: "ErrorObject \<Rightarrow> string" where
  "formatSchemaError e =
     (let basePath = formatInstancePath (instancePath e);
          generic = (let message = (if truthy (eo_message e) then the (eo_message e) else ''is invalid'')
                     in trim (basePath @ '' '' @ message))
      in if keyword e = ''additionalProperties'' then
           (if truthy (additionalProperty e) then
              (let path = (if basePath = ''(root)'' then the (additionalProperty e)
                           else basePath @ ''.'' @ the (additionalProperty e))
               in path @ '' is not allowed'')
            else generic)
         else generic)"

definition formatSchemaErrors :: "ErrorObject list option \<Rightarrow> string list" where
  "formatSchemaErrors errors =
     (case errors of None \<Rightarrow> [] | Some es \<Rightarrow> if es = [] then [] else map formatSchemaError es)"

text \<open>\<^verbatim>\<open>xs[0]\<close>: \<^verbatim>\<open>undefined\<close> on an empty array.\<close>

definition first_elem :: "'a list \<Rightarrow> 'a option" where
  "first_elem xs = (case xs of [] \<Rightarrow> None | x # _ \<Rightarrow> Some x)"

definition defaultContractSchemaPath :: "'a sys_scheme \<Rightarrow> string" where
  "defaultContractSchemaPath h = path_join h [cwd h, ''contracts'', ''renderer-contract.schema.json'']"

definition defaultRegistrySchemaPath :: "'a sys_scheme \<Rightarrow> string" where
  "defaultRegistrySchemaPath h = path_join h [cwd h, ''contracts'', ''renderer-registry.schema.json'']"

definition unknownRenderer :: renderer_identity where
  "unknownRenderer = \<lparr>ri_name = ''unknown'', ri_version = ''unknown'', ri_target = ''unknown''\<rparr>"

subsection \<open>The eight rules, in the order they are pushed\<close>

definition manifest_schema_rule :: "'raw validator \<Rightarrow> 'raw \<Rightarrow> ValidationRuleResult" where
  "manifest_schema_rule contractValidator manifestRaw =
     (let manifestValid = fst (contractValidator manifestRaw);
          manifestErrors = formatSchemaErrors (snd (contractValidator manifestRaw))
      in ruleResult ''renderer-manifest.schema'' manifestValid
           (if manifestValid then ''Renderer manifest matches contracts/renderer-contract.schema.json.''
            else ''Renderer manifest fails contracts/renderer-contract.schema.json validation.'')
           (if manifestValid then None else first_elem manifestErrors))"

definition registry_schema_rule :: "'raw validator \<Rightarrow> 'raw \<Rightarrow> ValidationRuleResult" where
  "registry_schema_rule registryValidator registryRaw =
     (let registryValid = fst (registryValidator registryRaw);
          registryErrors = formatSchemaErrors (snd (registryValidator registryRaw))
      in ruleResult ''renderer-registry.schema'' registryValid
           (if registryValid then ''Renderer registry matches contracts/renderer-registry.schema.json.''
            else ''Renderer registry fails contracts/renderer-registry.schema.json validation.'')
           (if registryValid then None else first_elem registryErrors))"

definition contract_declared_rule :: "RendererOutputManifest \<Rightarrow> ValidationRuleResult" where
  "contract_declared_rule manifest =
     (let contractDeclared = (declares_contract (renderer manifest) = contract_id_of (contract manifest))
      in ruleResult ''renderer-contract.declared.rule'' contractDeclared
           (if contractDeclared then ''Renderer declares the active renderer contract.''
            else ''Renderer declares a contract that does not match the manifest contract.'')
           (if contractDeclared then None
            else Some (''declares_contract='' @ declares_contract (renderer manifest) @
                       '', contract.id='' @ contract_id_of (contract manifest))))"

definition registeredRenderer :: "RendererOutputManifest \<Rightarrow> RendererRegistry \<Rightarrow> RendererRegistryEntry option" where
  "registeredRenderer manifest registry =
     find (\<lambda>entry. re_name entry = rm_name (renderer manifest) \<and>
                   re_version entry = rm_version (renderer manifest) \<and>
                   re_target entry = rm_target (renderer manifest))
          (renderers registry)"

definition registration_rule :: "RendererOutputManifest \<Rightarrow> RendererRegistry \<Rightarrow> ValidationRuleResult" where
  "registration_rule manifest registry =
     (let rendererRegistered = (registeredRenderer manifest registry \<noteq> None)
      in ruleResult ''renderer-registration.rule'' rendererRegistered
           (if rendererRegistered then ''Renderer is registered for this target and version.''
            else ''Renderer is not registered; add it to config/renderer-registry.json.'')
           (if rendererRegistered then None
            else Some (rm_name (renderer manifest) @ ''@'' @ rm_version (renderer manifest) @
                       '' target='' @ rm_target (renderer manifest))))"

definition registry_contract_rule :: "RendererOutputManifest \<Rightarrow> RendererRegistry \<Rightarrow> ValidationRuleResult" where
  "registry_contract_rule manifest registry =
     (let found = registeredRenderer manifest registry;
          rendererRegistered = (found \<noteq> None);
          registryContractMatch =
            (rendererRegistered \<and> map_option contract_id found = Some (contract_id_of (contract manifest)))
      in ruleResult ''renderer-contract.registry.rule'' registryContractMatch
           (if registryContractMatch then ''Renderer registry contract matches the manifest contract.''
            else ''Renderer registry contract does not match the manifest contract.'')
           (if registryContractMatch then None
            else (case found of
                    Some entry \<Rightarrow>
                      Some (''registry.contract_id='' @ contract_id entry @
                            '', manifest.contract.id='' @ contract_id_of (contract manifest))
                  | None \<Rightarrow> Some ''Renderer entry missing from registry.'')))"

definition token_usage_rule :: "RendererOutputManifest \<Rightarrow> ValidationRuleResult" where
  "token_usage_rule manifest =
     (let undeclaredTokens = undeclared (token_usage (outputs manifest));
          tokenUsageValid = (length undeclaredTokens = 0)
      in ruleResult ''token-usage.declared.rule'' tokenUsageValid
           (if tokenUsageValid then ''Token usage is fully declared.''
            else ''Undeclared token usage detected; declare all tokens or remove undeclared usage.'')
           (if tokenUsageValid then None else first_elem undeclaredTokens))"

definition constitution_compliance_rule :: "RendererOutputManifest \<Rightarrow> ValidationRuleResult" where
  "constitution_compliance_rule manifest =
     (let constitutionViolations = violations (outputs manifest);
          constitutionValid = (length constitutionViolations = 0)
      in ruleResult ''constitution-compliance.rule'' constitutionValid
           (if constitutionValid then ''No constitution violations reported.''
            else ''Renderer reports constitution violations; resolve them before compiling.'')
           (if constitutionValid then None else first_elem constitutionViolations))"

definition deterministic_output_rule :: "RendererOutputManifest \<Rightarrow> ValidationRuleResult" where
  "deterministic_output_rule manifest =
     (let determinismMarkers = markers (determinism (outputs manifest));
          deterministicFlag = deterministic (determinism (outputs manifest));
          determinismValid = (deterministicFlag = True \<and> length determinismMarkers = 0)
      in ruleResult ''deterministic-output.rule'' determinismValid
           (if determinismValid then ''Renderer output is marked deterministic and free of nondeterminism markers.''
            else ''Renderer output is marked nondeterministic; remove markers or set deterministic=true.'')
           (if determinismValid then None
            else if length determinismMarkers > 0 then first_elem determinismMarkers
            else Some ''deterministic=false''))"

subsection \<open>\<^verbatim>\<open>buildRendererValidationReport\<close>\<close>

text \<open>
  Lines 83 to 233: the two schema rules are pushed, the early return is taken when a
  document is invalid, and otherwise the six semantic rules are pushed in order.
\<close>

definition validateDocuments ::
  "('schema, 'raw) contract_host \<Rightarrow> 'raw validator \<Rightarrow> 'raw validator \<Rightarrow> 'raw \<Rightarrow> 'raw
     \<Rightarrow> RendererValidationReport" where
  "validateDocuments h contractValidator registryValidator manifestRaw registryRaw =
     (let rules0 = [];
          manifestValid = fst (contractValidator manifestRaw);
          rules1 = rules0 @ [manifest_schema_rule contractValidator manifestRaw];
          registryValid = fst (registryValidator registryRaw);
          rules2 = rules1 @ [registry_schema_rule registryValidator registryRaw]
      in if \<not> manifestValid \<or> \<not> registryValid then
           (let errors = filter (\<lambda>rule. \<not> vr_passed rule) rules2
            in \<lparr>rv_status = Failed, rv_generated_at = now h, rv_renderer = unknownRenderer,
                rv_rules = rules2, rv_errors = errors\<rparr>)
         else
           (let manifest = as_manifest h manifestRaw;
                registry = as_registry h registryRaw;
                rendererInfo = \<lparr>ri_name = rm_name (renderer manifest),
                                ri_version = rm_version (renderer manifest),
                                ri_target = rm_target (renderer manifest)\<rparr>;
                rules3 = rules2 @ [contract_declared_rule manifest];
                rules4 = rules3 @ [registration_rule manifest registry];
                rules5 = rules4 @ [registry_contract_rule manifest registry];
                rules6 = rules5 @ [token_usage_rule manifest];
                rules7 = rules6 @ [constitution_compliance_rule manifest];
                rules8 = rules7 @ [deterministic_output_rule manifest];
                errors = filter (\<lambda>rule. \<not> vr_passed rule) rules8
            in \<lparr>rv_status = (if length errors = 0 then Passed else Failed),
                rv_generated_at = now h, rv_renderer = rendererInfo,
                rv_rules = rules8, rv_errors = errors\<rparr>))"

text \<open>Lines 68 to 81: the schema files are resolved, read and compiled first.\<close>

definition buildRendererValidationReport ::
  "('schema, 'raw) contract_host \<Rightarrow> 'raw \<Rightarrow> 'raw \<Rightarrow> RendererValidationOptions
     \<Rightarrow> rejection + RendererValidationReport" where
  "buildRendererValidationReport h manifestRaw registryRaw options =
     (let contractPath = (case contractSchemaPath options of Some p \<Rightarrow> p
                          | None \<Rightarrow> defaultContractSchemaPath h);
          registryPath = (case registrySchemaPath options of Some p \<Rightarrow> p
                          | None \<Rightarrow> defaultRegistrySchemaPath h)
      in case readJsonFile h contractPath of Inl e \<Rightarrow> Inl e | Inr contractSchema \<Rightarrow>
         (case readJsonFile h registryPath of Inl e \<Rightarrow> Inl e | Inr registrySchema \<Rightarrow>
         (case ajv_compile h contractSchema of Inl e \<Rightarrow> Inl e | Inr contractValidator \<Rightarrow>
         (case ajv_compile h registrySchema of Inl e \<Rightarrow> Inl e | Inr registryValidator \<Rightarrow>
            Inr (validateDocuments h contractValidator registryValidator manifestRaw registryRaw)))))"

section \<open>The taste evaluator (\<^verbatim>\<open>src/rules/taste/index.ts\<close>)\<close>

subsection \<open>Constitution, design intent, ruleset, report\<close>

record TypographyRoleDef =
  rd_name :: string
  rd_min :: number
  rd_max :: number

record TypographyConstitution =
  max_font_sizes :: number
  roles :: "TypographyRoleDef list"
  hierarchy :: "string list"

record SpacingConstitution =
  sp_allowed_values :: "number list"
  sp_max_variance :: number

record ColorConstitution =
  allowed_tokens :: "string list"
  contrast_floor :: number

record ConsistencyBand =
  allowed_values :: "js_values option"
  max_variance :: "number option"

record ConsistencyConstitution =
  radius :: ConsistencyBand
  elevation :: ConsistencyBand
  motion :: ConsistencyBand

record PatternsConstitution =
  allowed :: "string list"
  intents :: "(string \<rightharpoonup> string list) option"

record VisualConstitution =
  typography :: TypographyConstitution
  spacing :: SpacingConstitution
  color :: ColorConstitution
  consistency :: ConsistencyConstitution
  patterns :: "PatternsConstitution option"

record DesignIntentDensity =
  max_interactions_per_view :: "number option"

record DesignIntentTaste =
  density :: "DesignIntentDensity option"
  allowed_patterns :: "(string \<rightharpoonup> string list) option"

record TasteRuleMeta =
  m_id :: string
  m_description :: string
  m_clause :: string
  m_intent_reference :: string
  m_remediation :: string

record TasteRuleset =
  version :: string
  rules :: "TasteRuleMeta list"

record TasteEvaluationOptions =
  rulesetPath :: "string option"
  failFast :: "bool option"
  verbose :: "bool option"

record TasteRuleResult =
  tr_id :: string
  tr_passed :: bool
  tr_message :: string
  tr_description :: string
  tr_clause :: string
  tr_intent_reference :: string
  tr_remediation :: string
  tr_counterexample :: "string option"

record TasteReport =
  tp_status :: status
  tp_generated_at :: string
  tp_renderer :: renderer_identity
  tp_ruleset_version :: string
  tp_rules :: "TasteRuleResult list"
  tp_errors :: "TasteRuleResult list"

record taste_host = sys +
  readRulesetFile :: "string \<Rightarrow> rejection + TasteRuleset"

subsection \<open>Helpers\<close>

text \<open>\<^verbatim>\<open>FILENAMES.tasteRuleset\<close> of the constants module.\<close>

definition tasteRuleset :: string where
  "tasteRuleset = ''rules/taste/ruleset.json''"

definition defaultRulesetPath :: "'a sys_scheme \<Rightarrow> string" where
  "defaultRulesetPath h = path_join h [cwd h, tasteRuleset]"

definition loadRuleset :: "taste_host \<Rightarrow> string option \<Rightarrow> rejection + TasteRuleset" where
  "loadRuleset h path =
     (let resolved = (case path of Some p \<Rightarrow> p | None \<Rightarrow> defaultRulesetPath h)
      in readRulesetFile h resolved)"

definition getRuleMeta :: "string \<Rightarrow> TasteRuleset \<Rightarrow> TasteRuleMeta" where
  "getRuleMeta i ruleset =
     (case find (\<lambda>rule. m_id rule = i) (rules ruleset) of
        Some found \<Rightarrow> found
      | None \<Rightarrow> \<lparr>m_id = i,
                  m_description = ''Rule metadata not found; update ruleset.'',
                  m_clause = ''unspecified'',
                  m_intent_reference = ''unspecified'',
                  m_remediation = ''Review rule definition.''\<rparr>)"

definition buildResult :: "TasteRuleMeta \<Rightarrow> bool \<Rightarrow> string \<Rightarrow> string option \<Rightarrow> TasteRuleResult" where
  "buildResult meta p msg c =
     \<lparr>tr_id = m_id meta, tr_passed = p, tr_message = msg,
      tr_description = m_description meta, tr_clause = m_clause meta,
      tr_intent_reference = m_intent_reference meta, tr_remediation = m_remediation meta,
      tr_counterexample = c\<rparr>"

text \<open>\<^verbatim>\<open>values.map((value) => String(value))\<close> on an array of numbers or of strings.\<close>

definition String_values :: "js_values \<Rightarrow> string list" where
  "String_values vs = (case vs of Numbers ns \<Rightarrow> map String_number ns | Strings ss \<Rightarrow> ss)"

text \<open>
  \<open>checkAllowedValues\<close>: the offending value is only ever used through its string
  form (the membership test and the template literal), so the search runs over the
  string forms.
\<close>

definition checkAllowedValues :: "ConsistencyBand \<Rightarrow> js_values \<Rightarrow> string option" where
  "checkAllowedValues band vals =
     (let allowedSet = new_Set (String_values (case allowed_values band of Some vs \<Rightarrow> vs
                                               | None \<Rightarrow> Strings []));
          invalid = find (\<lambda>v. \<not> Set_has allowedSet v) (String_values vals)
      in case invalid of
           None \<Rightarrow> None
         | Some v \<Rightarrow> Some (v @ '' not in allowed set: '' @ join '', '' allowedSet))"

definition checkVariance :: "ConsistencyBand \<Rightarrow> js_values \<Rightarrow> string option" where
  "checkVariance band vals =
     (case max_variance band of
        None \<Rightarrow> None
      | Some maxVariance \<Rightarrow>
          (case vals of
             Numbers [] \<Rightarrow> None
           | Numbers (v # vs) \<Rightarrow>
               (let mx = foldl max v vs; mn = foldl min v vs; variance = mx - mn
                in if variance > maxVariance then
                     Some (''variance '' @ String_number variance @ '' exceeds max_variance '' @
                           String_number maxVariance)
                   else None)
           | Strings [] \<Rightarrow> None
           | Strings (s # ss) \<Rightarrow>
               (let uniqueCount = Set_size (new_Set (s # ss))
                in if uniqueCount > 1 \<and> maxVariance = 0 then
                     Some (''multiple values present but max_variance is '' @ String_number maxVariance)
                   else None)))"

subsection \<open>The ten rule blocks, in source order\<close>

text \<open>
  Each definition is the result that its block hands to \<open>addResult\<close>. The result
  carries \<open>passed ? undefined : message\<close> as its counterexample.
\<close>

definition typography_max_sizes_rule ::
  "TasteRuleset \<Rightarrow> RendererOutputManifest \<Rightarrow> VisualConstitution \<Rightarrow> TasteRuleResult" where
  "typography_max_sizes_rule ruleset manifest constitution =
     (let meta = getRuleMeta ''typography.max-sizes.rule'' ruleset;
          sizes = new_Set (map role_size (typography_roles (taste manifest)));
          allowedMax = max_font_sizes (typography constitution);
          p = (int (Set_size sizes) \<le> allowedMax);
          message = (if p then ''Typography size count within allowed maximum.''
                     else ''Used '' @ String_number (int (Set_size sizes)) @
                          '' font sizes; allowed maximum is '' @ String_number allowedMax @ ''.'')
      in buildResult meta p message (if p then None else Some message))"

text \<open>
  The first loop of the hierarchy block: every declared role against the role table.
  The pair is the state \<open>(passed, counterexample)\<close> when the loop ends.
\<close>

fun role_range_loop ::
  "TypographyRoleDef list \<Rightarrow> RendererTasteTypographyRole list \<Rightarrow> bool \<times> string option" where
  "role_range_loop roleDefs [] = (True, None)"
| "role_range_loop roleDefs (r # rest) =
     (case find (\<lambda>entry. rd_name entry = role r) roleDefs of
        None \<Rightarrow> (False, Some (''Role '' @ [CHR 0x27] @ role r @ [CHR 0x27] @ '' is not defined in constitution.''))
      | Some d \<Rightarrow>
          if role_size r < rd_min d \<or> role_size r > rd_max d then
            (False, Some (''Role '' @ [CHR 0x27] @ role r @ [CHR 0x27] @ '' size '' @
                          String_number (role_size r) @ '' outside '' @
                          String_number (rd_min d) @ ''-'' @ String_number (rd_max d) @ ''.''))
          else role_range_loop roleDefs rest)"

text \<open>The \<open>forEach\<close> that fills \<open>sizeByRole\<close>.\<close>

definition sizeByRole_of ::
  "string list \<Rightarrow> RendererTasteTypographyRole list \<Rightarrow> (string \<rightharpoonup> number)" where
  "sizeByRole_of hier declaredRoles =
     foldl (\<lambda>sizeByRole roleName.
              case find (\<lambda>entry. role entry = roleName) declaredRoles of
                Some declared \<Rightarrow> sizeByRole(roleName \<mapsto> role_size declared)
              | None \<Rightarrow> sizeByRole)
           Map.empty hier"

text \<open>The second loop: \<open>i\<close> runs over the adjacent pairs of the hierarchy.\<close>

fun hierarchy_loop :: "(string \<rightharpoonup> number) \<Rightarrow> string list \<Rightarrow> bool \<times> string option" where
  "hierarchy_loop sizeByRole (a # b # rest) =
     (case sizeByRole a of
        None \<Rightarrow> hierarchy_loop sizeByRole (b # rest)
      | Some current \<Rightarrow>
          (case sizeByRole b of
             None \<Rightarrow> hierarchy_loop sizeByRole (b # rest)
           | Some next \<Rightarrow>
               if current < next then
                 (False, Some (a @ '' ('' @ String_number current @ '') should not be smaller than '' @
                               b @ '' ('' @ String_number next @ '').''))
               else hierarchy_loop sizeByRole (b # rest)))"
| "hierarchy_loop sizeByRole _ = (True, None)"

definition typography_hierarchy_rule ::
  "TasteRuleset \<Rightarrow> RendererOutputManifest \<Rightarrow> VisualConstitution \<Rightarrow> TasteRuleResult" where
  "typography_hierarchy_rule ruleset manifest constitution =
     (let meta = getRuleMeta ''typography.hierarchy.rule'' ruleset;
          roleDefs = roles (typography constitution);
          hier = hierarchy (typography constitution);
          declaredRoles = typography_roles (taste manifest);
          (p1, counterexample1) = role_range_loop roleDefs declaredRoles;
          (p, counterexample) =
             (if p1 \<and> length hier > 1 then hierarchy_loop (sizeByRole_of hier declaredRoles) hier
              else (p1, counterexample1));
          message = (if p then ''Typography roles satisfy hierarchy ranges.''
                     else if truthy counterexample then the counterexample
                     else ''Typography hierarchy violated.'')
      in buildResult meta p message (if p then None else Some message))"

definition spacing_allowed_values_rule ::
  "TasteRuleset \<Rightarrow> RendererOutputManifest \<Rightarrow> VisualConstitution \<Rightarrow> TasteRuleResult" where
  "spacing_allowed_values_rule ruleset manifest constitution =
     (let meta = getRuleMeta ''spacing.allowed-values.rule'' ruleset;
          allowedSet = new_Set (sp_allowed_values (spacing constitution));
          invalid = find (\<lambda>v. \<not> Set_has allowedSet v) (spacing_values (taste manifest));
          p = (invalid = None);
          message = (case invalid of
                       None \<Rightarrow> ''Spacing values are enumerated in the constitution.''
                     | Some v \<Rightarrow> ''Spacing value '' @ String_number v @ '' not allowed.'')
      in buildResult meta p message (if p then None else Some message))"

definition spacing_variance_rule ::
  "TasteRuleset \<Rightarrow> RendererOutputManifest \<Rightarrow> VisualConstitution \<Rightarrow> TasteRuleResult" where
  "spacing_variance_rule ruleset manifest constitution =
     (let meta = getRuleMeta ''spacing.variance.rule'' ruleset;
          variance = (case spacing_values (taste manifest) of
                        [] \<Rightarrow> 0
                      | v # vs \<Rightarrow> foldl max v vs - foldl min v vs);
          allowedVariance = sp_max_variance (spacing constitution);
          p = (variance \<le> allowedVariance);
          message = (if p then ''Spacing variance within allowed range.''
                     else ''Spacing variance '' @ String_number variance @ '' exceeds allowed '' @
                          String_number allowedVariance @ ''.'')
      in buildResult meta p message (if p then None else Some message))"

definition color_allowed_rule ::
  "TasteRuleset \<Rightarrow> RendererOutputManifest \<Rightarrow> VisualConstitution \<Rightarrow> TasteRuleResult" where
  "color_allowed_rule ruleset manifest constitution =
     (let meta = getRuleMeta ''color.allowed.rule'' ruleset;
          allowedSet = new_Set (allowed_tokens (color constitution));
          invalid = find (\<lambda>token. \<not> Set_has allowedSet token) (color_tokens (taste manifest));
          p = (invalid = None);
          message = (case invalid of
                       None \<Rightarrow> ''All colors mapped to allowed tokens.''
                     | Some token \<Rightarrow> ''Color token '' @ [CHR 0x27] @ token @ [CHR 0x27] @ '' is not allowed.'')
      in buildResult meta p message (if p then None else Some message))"

definition color_contrast_rule ::
  "TasteRuleset \<Rightarrow> RendererOutputManifest \<Rightarrow> VisualConstitution \<Rightarrow> TasteRuleResult" where
  "color_contrast_rule ruleset manifest constitution =
     (let meta = getRuleMeta ''color.contrast.rule'' ruleset;
          floor = contrast_floor (color constitution);
          failing = find (\<lambda>entry. ratio entry < floor) (color_contrast (taste manifest));
          p = (failing = None);
          message = (case failing of
                       None \<Rightarrow> ''All contrast ratios meet the floor.''
                     | Some entry \<Rightarrow> ''Contrast ratio '' @ String_number (ratio entry) @ '' for '' @
                                    pair entry @ '' below floor '' @ String_number floor @ ''.'')
      in buildResult meta p message (if p then None else Some message))"

text \<open>
  The density block pushes its result in either branch of the test on the intent's
  limit; \<open>intent.density?.max_interactions_per_view\<close> is absent when either level is.
\<close>

definition density_limit_rule ::
  "TasteRuleset \<Rightarrow> RendererOutputManifest \<Rightarrow> DesignIntentTaste \<Rightarrow> TasteRuleResult" where
  "density_limit_rule ruleset manifest intent =
     (let meta = getRuleMeta ''density.limit.rule'' ruleset;
          intentLimit = (case density intent of None \<Rightarrow> None
                         | Some d \<Rightarrow> max_interactions_per_view d)
      in case intentLimit of
           None \<Rightarrow>
             (let message = ''Design intent missing density limit.''
              in buildResult meta False message (Some message))
         | Some limit \<Rightarrow>
             (let actual = interactions_per_view (taste manifest);
                  p = (actual \<le> limit);
                  message = (if p then ''Interaction density within intent limits.''
                             else ''Interactions per view '' @ String_number actual @
                                  '' exceeds intent limit '' @ String_number limit @ ''.'')
              in buildResult meta p message (if p then None else Some message)))"

definition consistency_allowed_rule ::
  "TasteRuleset \<Rightarrow> RendererOutputManifest \<Rightarrow> VisualConstitution \<Rightarrow> TasteRuleResult" where
  "consistency_allowed_rule ruleset manifest constitution =
     (let meta = getRuleMeta ''consistency.allowed.rule'' ruleset;
          declared = declared_consistency (taste manifest);
          constitutionConsistency = consistency constitution;
          radiusError = checkAllowedValues (radius constitutionConsistency) (Numbers (mc_radius declared));
          elevationError = checkAllowedValues (elevation constitutionConsistency) (Numbers (mc_elevation declared));
          motionError = checkAllowedValues (motion constitutionConsistency) (Strings (mc_motion declared));
          firstError = or_else (or_else radiusError elevationError) motionError;
          p = (\<not> truthy firstError);
          message = (if p then ''Consistency values align with allowed sets.'' else the firstError)
      in buildResult meta p message (if p then None else Some message))"

definition consistency_variance_rule ::
  "TasteRuleset \<Rightarrow> RendererOutputManifest \<Rightarrow> VisualConstitution \<Rightarrow> TasteRuleResult" where
  "consistency_variance_rule ruleset manifest constitution =
     (let meta = getRuleMeta ''consistency.variance.rule'' ruleset;
          declared = declared_consistency (taste manifest);
          constitutionConsistency = consistency constitution;
          radiusVariance = checkVariance (radius constitutionConsistency) (Numbers (mc_radius declared));
          elevationVariance = checkVariance (elevation constitutionConsistency) (Numbers (mc_elevation declared));
          motionVariance = checkVariance (motion constitutionConsistency) (Strings (mc_motion declared));
          firstError = or_else (or_else radiusVariance elevationVariance) motionVariance;
          p = (\<not> truthy firstError);
          message = (if p then ''Consistency variance within limits.'' else the firstError)
      in buildResult meta p message (if p then None else Some message))"

text \<open>
  A bracket lookup \<open>record[key]\<close> on an object read from JSON finds an own property,
  or else walks to \<^verbatim>\<open>Object.prototype\<close>, whose members are functions (and, for
  \<^verbatim>\<open>__proto__\<close>, the prototype itself): values that are neither nullish nor arrays.
  Any other key gives \<^verbatim>\<open>undefined\<close>.
\<close>

datatype 'a property = Own 'a | Inherited | Absent

definition Object_prototype_keys :: "string list" where
  "Object_prototype_keys =
     [''constructor'', ''__defineGetter__'', ''__defineSetter__'', ''hasOwnProperty'',
      ''__lookupGetter__'', ''__lookupSetter__'', ''isPrototypeOf'', ''propertyIsEnumerable'',
      ''toString'', ''valueOf'', ''__proto__'', ''toLocaleString'']"

definition record_get :: "(string \<rightharpoonup> 'a) \<Rightarrow> string \<Rightarrow> 'a property" where
  "record_get r k =
     (case r k of
        Some v \<Rightarrow> Own v
      | None \<Rightarrow> if k \<in> set Object_prototype_keys then Inherited else Absent)"

text \<open>\<open>record?.[key]\<close> on an optional record, and \<open>a ?? b\<close>.\<close>

definition opt_lookup :: "(string \<rightharpoonup> 'a) option \<Rightarrow> string \<Rightarrow> 'a property" where
  "opt_lookup m k = (case m of None \<Rightarrow> Absent | Some r \<Rightarrow> record_get r k)"

definition nullish_or :: "'a property \<Rightarrow> 'a property \<Rightarrow> 'a property" where
  "nullish_or a b = (case a of Absent \<Rightarrow> b | _ \<Rightarrow> a)"

text \<open>
  The loop of the patterns block over the declared usages; \<open>allowedPatterns\<close> is the
  set built before the loop. \<open>allowedIntents\<close> is an array unless a lookup ended at an
  inherited member; \<open>allowedIntents.includes\<close> is then undefined and the call throws.
\<close>

fun patterns_loop ::
  "VisualConstitution \<Rightarrow> DesignIntentTaste \<Rightarrow> string list \<Rightarrow> RendererTastePatternUsage list
     \<Rightarrow> rejection + bool \<times> string option" where
  "patterns_loop constitution intent allowedPatterns [] = Inr (True, None)"
| "patterns_loop constitution intent allowedPatterns (entry # rest) =
     (case patterns constitution of
        None \<Rightarrow> Inr (False, Some ''Constitution patterns not provided; cannot authorize usage.'')
      | Some policy \<Rightarrow>
          if \<not> Set_has allowedPatterns (usage_pattern entry) then
            Inr (False, Some (''Pattern '' @ [CHR 0x27] @ usage_pattern entry @ [CHR 0x27] @
                              '' is not allowed by constitution.''))
          else
            (case nullish_or
                    (nullish_or (opt_lookup (allowed_patterns intent) (usage_pattern entry))
                                (opt_lookup (intents policy) (usage_pattern entry)))
                    (Own [])
             of
               Own allowedIntents \<Rightarrow>
                 if \<not> Array_includes allowedIntents (usage_intent entry) then
                   Inr (False, Some (''Pattern '' @ [CHR 0x27] @ usage_pattern entry @ [CHR 0x27] @
                                     '' not permitted for intent '' @ [CHR 0x27] @ usage_intent entry @
                                     [CHR 0x27] @ ''. Allowed: '' @ join '', '' allowedIntents))
                 else patterns_loop constitution intent allowedPatterns rest
             | _ \<Rightarrow> Inl (TypeError ''allowedIntents.includes is not a function'')))"

text \<open>The patterns block up to its call of \<open>addResult\<close>: the result it pushes, or the throw.\<close>

definition patterns_intent_rule ::
  "TasteRuleset \<Rightarrow> RendererOutputManifest \<Rightarrow> VisualConstitution \<Rightarrow> DesignIntentTaste
     \<Rightarrow> rejection + TasteRuleResult" where
  "patterns_intent_rule ruleset manifest constitution intent =
     (let meta = getRuleMeta ''patterns.intent.rule'' ruleset;
          usage = patterns_usage (taste manifest);
          allowedPatterns = new_Set (case patterns constitution of None \<Rightarrow> []
                                     | Some policy \<Rightarrow> allowed policy)
      in case patterns_loop constitution intent allowedPatterns usage of
           Inl e \<Rightarrow> Inl e
         | Inr (p, counterexample) \<Rightarrow>
             (let message = (if p then ''Pattern usage aligns with intent and constitution.''
                             else if truthy counterexample then the counterexample
                             else ''Pattern usage violation.'')
              in Inr (buildResult meta p message (if p then None else Some message))))"

subsection \<open>\<^verbatim>\<open>evaluateTaste\<close>\<close>

text \<open>
  \<open>addResult\<close> pushes a result and tells whether to stop: the pair is the new
  \<open>results\<close> array and the returned flag.
\<close>

definition addResult ::
  "bool \<Rightarrow> bool \<Rightarrow> TasteRuleResult list \<Rightarrow> TasteRuleResult \<Rightarrow> TasteRuleResult list \<times> bool" where
  "addResult ff vb results result =
     (results @ [result], (if \<not> tr_passed result \<and> ff \<and> \<not> vb then True else False))"

text \<open>The report literal of every early return.\<close>

definition stoppedReport ::
  "'a sys_scheme \<Rightarrow> RendererOutputManifest \<Rightarrow> TasteRuleset \<Rightarrow> TasteRuleResult list \<Rightarrow> TasteReport" where
  "stoppedReport h manifest ruleset results =
     \<lparr>tp_status = Failed,
      tp_generated_at = now h,
      tp_renderer = \<lparr>ri_name = rm_name (renderer manifest),
                      ri_version = rm_version (renderer manifest),
                      ri_target = rm_target (renderer manifest)\<rparr>,
      tp_ruleset_version = version ruleset,
      tp_rules = results,
      tp_errors = filter (\<lambda>rule. \<not> tr_passed rule) results\<rparr>"

text \<open>The report of the last return statement.\<close>

definition finalReport ::
  "'a sys_scheme \<Rightarrow> RendererOutputManifest \<Rightarrow> TasteRuleset \<Rightarrow> TasteRuleResult list \<Rightarrow> TasteReport" where
  "finalReport h manifest ruleset results =
     (let errors = filter (\<lambda>rule. \<not> tr_passed rule) results
      in \<lparr>tp_status = (if length errors = 0 then Passed else Failed),
          tp_generated_at = now h,
          tp_renderer = \<lparr>ri_name = rm_name (renderer manifest),
                          ri_version = rm_version (renderer manifest),
                          ri_target = rm_target (renderer manifest)\<rparr>,
          tp_ruleset_version = version ruleset,
          tp_rules = results,
          tp_errors = errors\<rparr>)"

definition evaluateTaste ::
  "taste_host \<Rightarrow> RendererOutputManifest \<Rightarrow> VisualConstitution \<Rightarrow> DesignIntentTaste
     \<Rightarrow> TasteEvaluationOptions \<Rightarrow> rejection + TasteReport" where
  "evaluateTaste h manifest constitution intent options =
     (case loadRuleset h (rulesetPath options) of
        Inl e \<Rightarrow> Inl e
      | Inr ruleset \<Rightarrow>
     (let results0 = [];
          ff = (case failFast options of Some b \<Rightarrow> b | None \<Rightarrow> True);
          vb = (case verbose options of Some b \<Rightarrow> b | None \<Rightarrow> False);
          (results1, shouldStop1) =
             addResult ff vb results0 (typography_max_sizes_rule ruleset manifest constitution)
      in if shouldStop1 then Inr (stoppedReport h manifest ruleset results1) else
     (let (results2, shouldStop2) =
             addResult ff vb results1 (typography_hierarchy_rule ruleset manifest constitution)
      in if shouldStop2 then Inr (stoppedReport h manifest ruleset results2) else
     (let (results3, shouldStop3) =
             addResult ff vb results2 (spacing_allowed_values_rule ruleset manifest constitution)
      in if shouldStop3 then Inr (stoppedReport h manifest ruleset results3) else
     (let (results4, shouldStop4) =
             addResult ff vb results3 (spacing_variance_rule ruleset manifest constitution)
      in if shouldStop4 then Inr (stoppedReport h manifest ruleset results4) else
     (let (results5, shouldStop5) =
             addResult ff vb results4 (color_allowed_rule ruleset manifest constitution)
      in if shouldStop5 then Inr (stoppedReport h manifest ruleset results5) else
     (let (results6, shouldStop6) =
             addResult ff vb results5 (color_contrast_rule ruleset manifest constitution)
      in if shouldStop6 then Inr (stoppedReport h manifest ruleset results6) else
     (let (results7, shouldStop7) =
             addResult ff vb results6 (density_limit_rule ruleset manifest intent)
      in if shouldStop7 then Inr (stoppedReport h manifest ruleset results7) else
     (let (results8, shouldStop8) =
             addResult ff vb results7 (consistency_allowed_rule ruleset manifest constitution)
      in if shouldStop8 then Inr (stoppedReport h manifest ruleset results8) else
     (let (results9, shouldStop9) =
             addResult ff vb results8 (consistency_variance_rule ruleset manifest constitution)
      in if shouldStop9 then Inr (stoppedReport h manifest ruleset results9) else
     (case patterns_intent_rule ruleset manifest constitution intent of
        Inl e \<Rightarrow> Inl e
      | Inr result \<Rightarrow>
          (let (results10, shouldStop10) = addResult ff vb results9 result
           in Inr (finalReport h manifest ruleset results10)))))))))))))"

section \<open>Definitions used to state the properties\<close>

text \<open>
  The results of one evaluation, in the order of the blocks: the nine results before the
  patterns block, and after them the result of the patterns block when it has one.
\<close>

definition first_nine_rules ::
  "TasteRuleset \<Rightarrow> RendererOutputManifest \<Rightarrow> VisualConstitution \<Rightarrow> DesignIntentTaste
     \<Rightarrow> TasteRuleResult list" where
  "first_nine_rules ruleset manifest constitution intent =
     [typography_max_sizes_rule ruleset manifest constitution,
      typography_hierarchy_rule ruleset manifest constitution,
      spacing_allowed_values_rule ruleset manifest constitution,
      spacing_variance_rule ruleset manifest constitution,
      color_allowed_rule ruleset manifest constitution,
      color_contrast_rule ruleset manifest constitution,
      density_limit_rule ruleset manifest intent,
      consistency_allowed_rule ruleset manifest constitution,
      consistency_variance_rule ruleset manifest constitution]"

definition taste_rules ::
  "TasteRuleset \<Rightarrow> RendererOutputManifest \<Rightarrow> VisualConstitution \<Rightarrow> DesignIntentTaste
     \<Rightarrow> TasteRuleResult list" where
  "taste_rules ruleset manifest constitution intent =
     first_nine_rules ruleset manifest constitution intent @
     (case patterns_intent_rule ruleset manifest constitution intent of
        Inr result \<Rightarrow> [result]
      | Inl e \<Rightarrow> [])"

text \<open>A list of results cut after its first failing entry.\<close>

fun upto_first_failure :: "TasteRuleResult list \<Rightarrow> TasteRuleResult list" where
  "upto_first_failure [] = []"
| "upto_first_failure (r # rs) = (if tr_passed r then r # upto_first_failure rs else [r])"

text \<open>The options with their defaults applied (\<open>failFast ?? true\<close>, \<open>verbose ?? false\<close>).\<close>

definition failFast_of :: "TasteEvaluationOptions \<Rightarrow> bool" where
  "failFast_of options = (case failFast options of Some b \<Rightarrow> b | None \<Rightarrow> True)"

definition verbose_of :: "TasteEvaluationOptions \<Rightarrow> bool" where
  "verbose_of options = (case verbose options of Some b \<Rightarrow> b | None \<Rightarrow> False)"

text \<open>What a report shows besides its timestamp and identity.\<close>

definition rv_outcome ::
  "RendererValidationReport \<Rightarrow> ValidationRuleResult list \<times> ValidationRuleResult list \<times> status" where
  "rv_outcome r = (rv_rules r, rv_errors r, rv_status r)"

definition tp_outcome ::
  "TasteReport \<Rightarrow> TasteRuleResult list \<times> TasteRuleResult list \<times> status" where
  "tp_outcome r = (tp_rules r, tp_errors r, tp_status r)"

text \<open>
  The hierarchy rule in the words of the specification: the declared size of a role name
  is the size of its first declaration; a declared role is in range when the role table
  has it and its size lies between the bounds; an adjacent pair of the hierarchy is
  ordered when one of its names is not declared or the earlier size is at least the
  later one.
\<close>

definition declared_size :: "RendererTasteTypographyRole list \<Rightarrow> string \<Rightarrow> number option" where
  "declared_size declaredRoles name =
     map_option role_size (find (\<lambda>entry. role entry = name) declaredRoles)"

definition role_in_range :: "TypographyRoleDef list \<Rightarrow> RendererTasteTypographyRole \<Rightarrow> bool" where
  "role_in_range roleDefs r =
     (case find (\<lambda>entry. rd_name entry = role r) roleDefs of
        None \<Rightarrow> False
      | Some d \<Rightarrow> rd_min d \<le> role_size r \<and> role_size r \<le> rd_max d)"

definition pair_ordered :: "RendererTasteTypographyRole list \<Rightarrow> string \<times> string \<Rightarrow> bool" where
  "pair_ordered declaredRoles ab =
     (case declared_size declaredRoles (fst ab) of
        None \<Rightarrow> True
      | Some earlier \<Rightarrow>
          (case declared_size declaredRoles (snd ab) of
             None \<Rightarrow> True
           | Some later \<Rightarrow> earlier \<ge> later))"

definition hierarchy_spec :: "VisualConstitution \<Rightarrow> RendererOutputManifest \<Rightarrow> bool" where
  "hierarchy_spec constitution manifest =
     (list_all (role_in_range (roles (typography constitution))) (typography_roles (taste manifest)) \<and>
      list_all (pair_ordered (typography_roles (taste manifest)))
        (zip (hierarchy (typography constitution)) (tl (hierarchy (typography constitution)))))"

text \<open>
  The patterns rule in the words of the specification: the permitted intents of a
  pattern are the intent document's entry when it has one, else the constitution's entry,
  else none; a usage is permitted when the constitution has a patterns policy that allows
  the pattern and the declared intent is among the permitted ones.
\<close>

definition mapping_entry :: "(string \<rightharpoonup> 'a) option \<Rightarrow> string \<Rightarrow> 'a option" where
  "mapping_entry m k = (case m of None \<Rightarrow> None | Some r \<Rightarrow> r k)"

definition permitted_intents :: "VisualConstitution \<Rightarrow> DesignIntentTaste \<Rightarrow> string \<Rightarrow> string list" where
  "permitted_intents constitution intent p =
     (case mapping_entry (allowed_patterns intent) p of
        Some override \<Rightarrow> override
      | None \<Rightarrow>
          (case patterns constitution of
             None \<Rightarrow> []
           | Some policy \<Rightarrow> (case mapping_entry (intents policy) p of Some l \<Rightarrow> l | None \<Rightarrow> [])))"

text \<open>
  The pattern names of a usage list for which a lookup in a mapping ends at an inherited
  member of \<^verbatim>\<open>Object.prototype\<close>.
\<close>

definition plain_patterns :: "RendererTastePatternUsage list \<Rightarrow> bool" where
  "plain_patterns usage = list_all (\<lambda>entry. usage_pattern entry \<notin> set Object_prototype_keys) usage"

definition usage_permitted ::
  "VisualConstitution \<Rightarrow> DesignIntentTaste \<Rightarrow> RendererTastePatternUsage \<Rightarrow> bool" where
  "usage_permitted constitution intent entry =
     (case patterns constitution of
        None \<Rightarrow> False
      | Some policy \<Rightarrow>
          usage_pattern entry \<in> set (allowed policy) \<and>
          usage_intent entry \<in> set (permitted_intents constitution intent (usage_pattern entry)))"

definition with_usage ::
  "RendererOutputManifest \<Rightarrow> RendererTastePatternUsage list \<Rightarrow> RendererOutputManifest" where
  "with_usage manifest usage = manifest\<lparr>taste := (taste manifest)\<lparr>patterns_usage := usage\<rparr>\<rparr>"

text \<open>A registry entry with the name, version and target of the manifest's renderer.\<close>

definition matches_renderer :: "RendererOutputManifest \<Rightarrow> RendererRegistryEntry \<Rightarrow> bool" where
  "matches_renderer manifest entry =
     (re_name entry = rm_name (renderer manifest) \<and>
      re_version entry = rm_version (renderer manifest) \<and>
      re_target entry = rm_target (renderer manifest))"

text \<open>The density limit that the density block reads from the intent document.\<close>

definition intent_limit :: "DesignIntentTaste \<Rightarrow> number option" where
  "intent_limit intent = (case density intent of None \<Rightarrow> None | Some d \<Rightarrow> max_interactions_per_view d)"

text \<open>The string forms of a band's allowed values.\<close>

definition allowed_strings :: "ConsistencyBand \<Rightarrow> string list" where
  "allowed_strings band =
     String_values (case allowed_values band of Some vs \<Rightarrow> vs | None \<Rightarrow> Strings [])"

section \<open>Example documents\<close>

text \<open>A compliant manifest with its registry, constitution, intent and ruleset.\<close>

definition demo_manifest :: RendererOutputManifest where
  "demo_manifest =
     \<lparr>contract = \<lparr>contract_id_of = ''renderer-contract/v1''\<rparr>,
      renderer = \<lparr>rm_name = ''web'', rm_version = ''1.0.0'', rm_target = ''html'',
                  declares_contract = ''renderer-contract/v1''\<rparr>,
      outputs = \<lparr>token_usage = \<lparr>undeclared = []\<rparr>, violations = [],
                 determinism = \<lparr>deterministic = True, markers = []\<rparr>\<rparr>,
      taste = \<lparr>typography_roles = [\<lparr>role = ''h1'', role_size = 32\<rparr>, \<lparr>role = ''body'', role_size = 16\<rparr>],
               spacing_values = [4, 8],
               color_tokens = [''primary''],
               color_contrast = [\<lparr>pair = ''primary/surface'', ratio = 7\<rparr>],
               interactions_per_view = 3,
               declared_consistency = \<lparr>mc_radius = [8], mc_elevation = [0], mc_motion = [''ease'']\<rparr>,
               patterns_usage = [\<lparr>usage_pattern = ''modal'', usage_intent = ''confirm''\<rparr>]\<rparr>\<rparr>"

definition demo_registry :: RendererRegistry where
  "demo_registry =
     \<lparr>renderers = [\<lparr>re_name = ''web'', re_version = ''1.0.0'', re_target = ''html'',
                    contract_id = ''renderer-contract/v1''\<rparr>]\<rparr>"

text \<open>
  Variants of the demo manifest: the heading declared smaller than the body text, four
  font sizes where the constitution allows three, and a modal used for an alert.
\<close>

definition inverted_manifest :: RendererOutputManifest where
  "inverted_manifest =
     demo_manifest\<lparr>taste := (taste demo_manifest)
       \<lparr>typography_roles := [\<lparr>role = ''h1'', role_size = 16\<rparr>, \<lparr>role = ''body'', role_size = 20\<rparr>]\<rparr>\<rparr>"

definition crowded_manifest :: RendererOutputManifest where
  "crowded_manifest =
     demo_manifest\<lparr>taste := (taste demo_manifest)
       \<lparr>typography_roles := [\<lparr>role = ''h1'', role_size = 32\<rparr>, \<lparr>role = ''h2'', role_size = 28\<rparr>,
                            \<lparr>role = ''h3'', role_size = 24\<rparr>, \<lparr>role = ''body'', role_size = 16\<rparr>]\<rparr>\<rparr>"

definition alert_manifest :: RendererOutputManifest where
  "alert_manifest =
     demo_manifest\<lparr>taste := (taste demo_manifest)
       \<lparr>patterns_usage := [\<lparr>usage_pattern = ''modal'', usage_intent = ''confirm''\<rparr>,
                          \<lparr>usage_pattern = ''modal'', usage_intent = ''alert''\<rparr>,
                          \<lparr>usage_pattern = ''drawer'', usage_intent = ''confirm''\<rparr>]\<rparr>\<rparr>"

text \<open>The same renderer registered under another contract, and a registry without it.\<close>

definition stale_registry :: RendererRegistry where
  "stale_registry =
     \<lparr>renderers = [\<lparr>re_name = ''web'', re_version = ''1.0.0'', re_target = ''html'',
                    contract_id = ''renderer-contract/v0''\<rparr>]\<rparr>"

definition empty_registry :: RendererRegistry where
  "empty_registry = \<lparr>renderers = []\<rparr>"

text \<open>The renderer registered twice, under the old contract first or last.\<close>

definition stale_first_registry :: RendererRegistry where
  "stale_first_registry = \<lparr>renderers = renderers stale_registry @ renderers demo_registry\<rparr>"

definition stale_last_registry :: RendererRegistry where
  "stale_last_registry = \<lparr>renderers = renderers demo_registry @ renderers stale_registry\<rparr>"

definition demo_constitution :: VisualConstitution where
  "demo_constitution =
     \<lparr>typography = \<lparr>max_font_sizes = 3,
                    roles = [\<lparr>rd_name = ''h1'', rd_min = 14, rd_max = 40\<rparr>,
                             \<lparr>rd_name = ''body'', rd_min = 12, rd_max = 24\<rparr>],
                    hierarchy = [''h1'', ''body'']\<rparr>,
      spacing = \<lparr>sp_allowed_values = [4, 8, 16], sp_max_variance = 12\<rparr>,
      color = \<lparr>allowed_tokens = [''primary'', ''surface''], contrast_floor = 4\<rparr>,
      consistency = \<lparr>radius = \<lparr>allowed_values = Some (Strings [''4'', ''8'']), max_variance = Some 4\<rparr>,
                     elevation = \<lparr>allowed_values = Some (Numbers [0, 1]), max_variance = Some 1\<rparr>,
                     motion = \<lparr>allowed_values = Some (Strings [''ease'']), max_variance = Some 0\<rparr>\<rparr>,
      patterns = Some \<lparr>allowed = [''modal''],
                       intents = Some [''modal'' \<mapsto> [''confirm'', ''alert'']]\<rparr>\<rparr>"

definition demo_intent :: DesignIntentTaste where
  "demo_intent =
     \<lparr>density = Some \<lparr>max_interactions_per_view = Some 5\<rparr>,
      allowed_patterns = Some [''modal'' \<mapsto> [''confirm'']]\<rparr>"

text \<open>
  A constitution that allows a pattern named constructor and maps no pattern to intents,
  an intent document without overrides, and a manifest that uses the pattern.
\<close>

definition constructor_constitution :: VisualConstitution where
  "constructor_constitution =
     demo_constitution\<lparr>patterns := Some \<lparr>allowed = [''constructor''], intents = Some Map.empty\<rparr>\<rparr>"

definition plain_intent :: DesignIntentTaste where
  "plain_intent =
     \<lparr>density = Some \<lparr>max_interactions_per_view = Some 5\<rparr>, allowed_patterns = None\<rparr>"

definition constructor_manifest :: RendererOutputManifest where
  "constructor_manifest =
     demo_manifest\<lparr>taste := (taste demo_manifest)
       \<lparr>patterns_usage := [\<lparr>usage_pattern = ''constructor'', usage_intent = ''confirm''\<rparr>]\<rparr>\<rparr>"

definition demo_ruleset :: TasteRuleset where
  "demo_ruleset =
     \<lparr>version = ''1.0.0'',
      rules = [\<lparr>m_id = ''typography.max-sizes.rule'',
                m_description = ''Limit the number of font sizes.'',
                m_clause = ''typography.max_font_sizes'',
                m_intent_reference = ''design-intent'',
                m_remediation = ''Remove font sizes.''\<rparr>]\<rparr>"

text \<open>A host whose only file is the ruleset at its default path.\<close>

definition demo_taste_host :: taste_host where
  "demo_taste_host =
     \<lparr>cwd = ''/repo'', path_join = join ''/'', now = ''2026-01-01T00:00:00.000Z'',
      readRulesetFile = (\<lambda>p. if p = ''/repo/rules/taste/ruleset.json'' then Inr demo_ruleset
                             else Inl (ReadError p))\<rparr>"

definition default_options :: TasteEvaluationOptions where
  "default_options = \<lparr>rulesetPath = None, failFast = None, verbose = None\<rparr>"

definition verbose_options :: TasteEvaluationOptions where
  "verbose_options = \<lparr>rulesetPath = None, failFast = None, verbose = Some True\<rparr>"

text \<open>
  Untyped documents for the contract validator: a manifest, a registry, or something
  that is neither. The demo schemas accept the document of their kind.
\<close>

datatype demo_document = ManifestDoc RendererOutputManifest | RegistryDoc RendererRegistry | OtherDoc

datatype demo_schema = ContractSchema | RegistrySchema

definition demo_validate :: "demo_schema \<Rightarrow> demo_document validator" where
  "demo_validate schema doc =
     (case (schema, doc) of
        (ContractSchema, ManifestDoc _) \<Rightarrow> (True, None)
      | (RegistrySchema, RegistryDoc _) \<Rightarrow> (True, None)
      | _ \<Rightarrow> (False, Some [\<lparr>instancePath = [], keyword = ''type'', additionalProperty = None,
                              eo_message = Some ''must be object''\<rparr>]))"

definition demo_contract_host :: "(demo_schema, demo_document) contract_host" where
  "demo_contract_host =
     \<lparr>cwd = ''/repo'', path_join = join ''/'', now = ''2026-01-01T00:00:00.000Z'',
      readJsonFile = (\<lambda>p. if p = ''/repo/contracts/renderer-contract.schema.json'' then Inr ContractSchema
                          else if p = ''/repo/contracts/renderer-registry.schema.json'' then Inr RegistrySchema
                          else Inl (ReadError p)),
      ajv_compile = (\<lambda>schema. Inr (demo_validate schema)),
      as_manifest = (\<lambda>doc. case doc of ManifestDoc m \<Rightarrow> m | _ \<Rightarrow> demo_manifest),
      as_registry = (\<lambda>doc. case doc of RegistryDoc r \<Rightarrow> r | _ \<Rightarrow> demo_registry)\<rparr>"

definition no_options :: RendererValidationOptions where
  "no_options = \<lparr>contractSchemaPath = None, registrySchemaPath = None\<rparr>"

section \<open>Auxiliary facts\<close>

subsection \<open>Sets\<close>

lemma set_foldl_Set_add: "set (foldl Set_add acc xs) = set acc \<union> set xs"
  by (induction xs arbitrary: acc) (auto simp add: Set_add_def)

lemma set_new_Set: "set (new_Set xs) = set xs"
  by (simp add: new_Set_def set_foldl_Set_add)

lemma Set_has_new_Set: "Set_has (new_Set xs) x = (x \<in> set xs)"
  by (simp add: Set_has_def set_new_Set)

subsection \<open>The contract validator\<close>

lemma schema_rule_passed:
  "vr_passed (manifest_schema_rule cv mr) = fst (cv mr)"
  "vr_passed (registry_schema_rule rv rr) = fst (rv rr)"
  by (simp_all add: manifest_schema_rule_def registry_schema_rule_def ruleResult_def Let_def)

lemma validateDocuments_errors:
  "rv_errors (validateDocuments h cv rv mr rr) =
     filter (\<lambda>rule. \<not> vr_passed rule) (rv_rules (validateDocuments h cv rv mr rr))"
  by (simp add: validateDocuments_def Let_def)

lemma validateDocuments_status:
  "(rv_status (validateDocuments h cv rv mr rr) = Passed) =
     (rv_errors (validateDocuments h cv rv mr rr) = [])"
  by (auto simp add: validateDocuments_def Let_def schema_rule_passed)

lemma validateDocuments_invalid:
  assumes "\<not> fst (cv mr) \<or> \<not> fst (rv rr)"
  shows "validateDocuments h cv rv mr rr =
           \<lparr>rv_status = Failed, rv_generated_at = now h, rv_renderer = unknownRenderer,
            rv_rules = [manifest_schema_rule cv mr, registry_schema_rule rv rr],
            rv_errors = filter (\<lambda>rule. \<not> vr_passed rule)
                          [manifest_schema_rule cv mr, registry_schema_rule rv rr]\<rparr>"
  using assms by (auto simp add: validateDocuments_def Let_def)

lemma validateDocuments_valid:
  assumes "fst (cv mr)" "fst (rv rr)"
  shows "rv_rules (validateDocuments h cv rv mr rr) =
           [manifest_schema_rule cv mr, registry_schema_rule rv rr,
            contract_declared_rule (as_manifest h mr),
            registration_rule (as_manifest h mr) (as_registry h rr),
            registry_contract_rule (as_manifest h mr) (as_registry h rr),
            token_usage_rule (as_manifest h mr),
            constitution_compliance_rule (as_manifest h mr),
            deterministic_output_rule (as_manifest h mr)]"
  using assms by (simp add: validateDocuments_def Let_def)

lemma validateDocuments_clock:
  "rv_outcome (validateDocuments (h\<lparr>now := t\<rparr>) cv rv mr rr) =
   rv_outcome (validateDocuments h cv rv mr rr)"
  by (simp add: validateDocuments_def rv_outcome_def Let_def)

lemma buildRendererValidationReport_loaded:
  assumes "readJsonFile h (case contractSchemaPath opts of Some p \<Rightarrow> p
                           | None \<Rightarrow> defaultContractSchemaPath h) = Inr cs"
      and "readJsonFile h (case registrySchemaPath opts of Some p \<Rightarrow> p
                           | None \<Rightarrow> defaultRegistrySchemaPath h) = Inr rs"
      and "ajv_compile h cs = Inr cv" and "ajv_compile h rs = Inr rv"
  shows "buildRendererValidationReport h mr rr opts = Inr (validateDocuments h cv rv mr rr)"
  using assms by (simp add: buildRendererValidationReport_def Let_def)

lemma buildRendererValidationReport_Inr:
  assumes "buildRendererValidationReport h mr rr opts = Inr r"
  shows "\<exists>cv rv. r = validateDocuments h cv rv mr rr"
  using assms by (auto simp add: buildRendererValidationReport_def Let_def split: sum.splits)

lemma demo_contract_host_loads:
  "readJsonFile demo_contract_host
     (case contractSchemaPath no_options of Some p \<Rightarrow> p
      | None \<Rightarrow> defaultContractSchemaPath demo_contract_host) = Inr ContractSchema"
  "readJsonFile demo_contract_host
     (case registrySchemaPath no_options of Some p \<Rightarrow> p
      | None \<Rightarrow> defaultRegistrySchemaPath demo_contract_host) = Inr RegistrySchema"
  "ajv_compile demo_contract_host schema = Inr (demo_validate schema)"
  by (simp_all add: demo_contract_host_def no_options_def defaultContractSchemaPath_def
        defaultRegistrySchemaPath_def)

subsection \<open>The taste evaluator\<close>

lemma length_first_nine_rules: "length (first_nine_rules ruleset m c i) = 9"
  by (simp add: first_nine_rules_def)

lemma upto_first_failure_all:
  "list_all tr_passed (butlast xs) \<Longrightarrow> upto_first_failure xs = xs"
  by (induction xs) (auto split: if_splits)

lemma upto_first_failure_fails:
  "\<not> list_all tr_passed xs \<Longrightarrow> filter (\<lambda>r. \<not> tr_passed r) (upto_first_failure xs) \<noteq> []"
  by (induction xs) auto

lemma upto_first_failure_append:
  "\<not> list_all tr_passed xs \<Longrightarrow> upto_first_failure (xs @ ys) = upto_first_failure xs"
  by (induction xs) auto

text \<open>The evaluation in one equation: the early returns, the throw, the last return.\<close>

lemma evaluateTaste_cases:
  assumes "loadRuleset h (rulesetPath opts) = Inr ruleset"
  shows "evaluateTaste h m c i opts =
           (if failFast_of opts \<and> \<not> verbose_of opts \<and> \<not> list_all tr_passed (first_nine_rules ruleset m c i)
            then Inr (stoppedReport h m ruleset (upto_first_failure (first_nine_rules ruleset m c i)))
            else (case patterns_intent_rule ruleset m c i of
                    Inl e \<Rightarrow> Inl e
                  | Inr result \<Rightarrow>
                      Inr (finalReport h m ruleset (first_nine_rules ruleset m c i @ [result]))))"
proof (cases "failFast_of opts \<and> \<not> verbose_of opts")
  case False
  then have flag: "(\<not> p \<and> (case failFast opts of Some b \<Rightarrow> b | None \<Rightarrow> True) \<and>
                    \<not> (case verbose opts of Some b \<Rightarrow> b | None \<Rightarrow> False)) = False" for p
    by (auto simp add: failFast_of_def verbose_of_def)
  from False have rhs: "(failFast_of opts \<and> \<not> verbose_of opts \<and> q) = False" for q
    by blast
  show ?thesis
  proof (cases "patterns_intent_rule ruleset m c i")
    case (Inl e)
    show ?thesis
      unfolding evaluateTaste_def assms rhs
      by (simp add: addResult_def flag Inl)
  next
    case (Inr result)
    show ?thesis
      unfolding evaluateTaste_def assms rhs
      by (simp add: addResult_def flag Inr first_nine_rules_def)
  qed
next
  case True
  then have ff: "(case failFast opts of Some b \<Rightarrow> b | None \<Rightarrow> True) = True"
    and vb: "(case verbose opts of Some b \<Rightarrow> b | None \<Rightarrow> False) = False"
    by (simp_all add: failFast_of_def verbose_of_def)
  show ?thesis
  proof (cases "patterns_intent_rule ruleset m c i")
    case (Inl e)
    show ?thesis
      unfolding evaluateTaste_def assms ff vb
      using True by (simp add: addResult_def first_nine_rules_def Inl)
  next
    case (Inr result)
    show ?thesis
      unfolding evaluateTaste_def assms ff vb
      using True by (simp add: addResult_def first_nine_rules_def Inr)
  qed
qed

lemma evaluateTaste_Inr:
  assumes "evaluateTaste h m c i opts = Inr t"
  shows "\<exists>ruleset. loadRuleset h (rulesetPath opts) = Inr ruleset"
proof (cases "loadRuleset h (rulesetPath opts)")
  case (Inl e)
  with assms show ?thesis by (simp add: evaluateTaste_def)
next
  case (Inr ruleset)
  then show ?thesis by simp
qed

lemma taste_report_rules:
  assumes load: "loadRuleset h (rulesetPath opts) = Inr ruleset"
      and run: "evaluateTaste h m c i opts = Inr t"
  shows "tp_rules t = (if failFast_of opts \<and> \<not> verbose_of opts
                       then upto_first_failure (taste_rules ruleset m c i)
                       else taste_rules ruleset m c i)"
    and "tp_errors t = filter (\<lambda>rule. \<not> tr_passed rule) (tp_rules t)"
    and "(tp_status t = Passed) = (tp_errors t = [])"
    and "tp_generated_at t = now h"
proof -
  let ?nine = "first_nine_rules ruleset m c i"
  let ?stop = "failFast_of opts \<and> \<not> verbose_of opts \<and> \<not> list_all tr_passed ?nine"
  note eq = evaluateTaste_cases[OF load, of m c i]
  have all: "tp_rules t = (if failFast_of opts \<and> \<not> verbose_of opts
                       then upto_first_failure (taste_rules ruleset m c i)
                       else taste_rules ruleset m c i) \<and>
        tp_errors t = filter (\<lambda>rule. \<not> tr_passed rule) (tp_rules t) \<and>
        (tp_status t = Passed) = (tp_errors t = []) \<and> tp_generated_at t = now h"
  proof (cases ?stop)
    case True
    with eq run have t: "t = stoppedReport h m ruleset (upto_first_failure ?nine)"
      by simp
    from True have nf: "\<not> list_all tr_passed ?nine" by simp
    show ?thesis
      unfolding t using True upto_first_failure_fails[OF nf] upto_first_failure_append[OF nf]
      by (simp add: stoppedReport_def taste_rules_def)
  next
    case False
    with eq run obtain result where p: "patterns_intent_rule ruleset m c i = Inr result"
      and t: "t = finalReport h m ruleset (?nine @ [result])"
      by (auto split: sum.splits)
    have full: "taste_rules ruleset m c i = ?nine @ [result]"
      by (simp add: taste_rules_def p)
    have cut: "upto_first_failure (?nine @ [result]) = ?nine @ [result]"
      if "failFast_of opts \<and> \<not> verbose_of opts"
      using that False by (intro upto_first_failure_all) simp
    show ?thesis
      unfolding t full using cut by (auto simp add: finalReport_def Let_def)
  qed
  then show "tp_rules t = (if failFast_of opts \<and> \<not> verbose_of opts
                       then upto_first_failure (taste_rules ruleset m c i)
                       else taste_rules ruleset m c i)"
    and "tp_errors t = filter (\<lambda>rule. \<not> tr_passed rule) (tp_rules t)"
    and "(tp_status t = Passed) = (tp_errors t = [])"
    and "tp_generated_at t = now h"
    by simp_all
qed

lemma demo_taste_host_loads:
  "loadRuleset demo_taste_host None = Inr demo_ruleset"
  by (simp add: loadRuleset_def demo_taste_host_def defaultRulesetPath_def tasteRuleset_def)

subsection \<open>The hierarchy rule\<close>

lemma role_range_loop_passed:
  "fst (role_range_loop roleDefs rs) = list_all (role_in_range roleDefs) rs"
  by (induction rs) (auto simp add: role_in_range_def split: option.splits)

lemma role_range_loop_cases:
  "role_range_loop roleDefs rs = (True, None) \<or>
   (\<exists>s. s \<noteq> [] \<and> role_range_loop roleDefs rs = (False, Some s))"
  by (induction rs) (auto split: option.splits)

lemma sizeByRole_foldl:
  "foldl (\<lambda>sizeByRole roleName.
              case find (\<lambda>entry. role entry = roleName) declaredRoles of
                Some declared \<Rightarrow> sizeByRole(roleName \<mapsto> role_size declared)
              | None \<Rightarrow> sizeByRole) m0 hier x =
     (if x \<in> set hier \<and> declared_size declaredRoles x \<noteq> None then declared_size declaredRoles x else m0 x)"
  by (induction hier arbitrary: m0) (auto simp add: declared_size_def split: option.splits)

lemma sizeByRole_of_lookup:
  "x \<in> set hier \<Longrightarrow> sizeByRole_of hier declaredRoles x = declared_size declaredRoles x"
  by (auto simp add: sizeByRole_of_def sizeByRole_foldl)

lemma hierarchy_loop_passed:
  "fst (hierarchy_loop m hier) =
     list_all (\<lambda>ab. case m (fst ab) of None \<Rightarrow> True
                    | Some earlier \<Rightarrow> (case m (snd ab) of None \<Rightarrow> True | Some later \<Rightarrow> earlier \<ge> later))
              (zip hier (tl hier))"
  by (induction m hier rule: hierarchy_loop.induct) (auto split: option.splits)

lemma hierarchy_loop_cases:
  "hierarchy_loop m hier = (True, None) \<or>
   (\<exists>s. s \<noteq> [] \<and> hierarchy_loop m hier = (False, Some s))"
  by (induction m hier rule: hierarchy_loop.induct) (auto split: option.splits)

lemma list_all_cong_set: "(\<And>x. x \<in> set xs \<Longrightarrow> P x = Q x) \<Longrightarrow> list_all P xs = list_all Q xs"
  by (induction xs) auto

lemma hierarchy_loop_spec:
  "fst (hierarchy_loop (sizeByRole_of hier declaredRoles) hier) =
     list_all (pair_ordered declaredRoles) (zip hier (tl hier))"
proof -
  have "\<And>ab. ab \<in> set (zip hier (tl hier)) \<Longrightarrow> fst ab \<in> set hier \<and> snd ab \<in> set hier"
    by (metis in_set_zipE list.set_sel(2) prod.collapse tl_Nil)
  then show ?thesis
    unfolding hierarchy_loop_passed pair_ordered_def
    by (intro list_all_cong_set) (simp add: sizeByRole_of_lookup cong: option.case_cong)
qed

lemma typography_hierarchy_rule_passed:
  "tr_passed (typography_hierarchy_rule ruleset manifest constitution) = hierarchy_spec constitution manifest"
proof -
  let ?hier = "hierarchy (typography constitution)"
  have short: "length ?hier \<le> 1 \<Longrightarrow> zip ?hier (tl ?hier) = []"
    by (cases ?hier) auto
  show ?thesis
    using role_range_loop_passed[of "roles (typography constitution)" "typography_roles (taste manifest)"]
          hierarchy_loop_spec[of ?hier "typography_roles (taste manifest)"] short
    by (auto simp add: typography_hierarchy_rule_def hierarchy_spec_def buildResult_def Let_def split_def)
qed

subsection \<open>The patterns rule\<close>

lemma opt_lookup_Own: "(opt_lookup m k = Own v) = (mapping_entry m k = Some v)"
  by (auto simp add: opt_lookup_def mapping_entry_def record_get_def split: option.splits)

lemma opt_lookup_not_Own: "(\<forall>v. opt_lookup m k \<noteq> Own v) = (mapping_entry m k = None)"
  by (auto simp add: opt_lookup_def mapping_entry_def record_get_def split: option.splits)

lemma opt_lookup_Inherited: "opt_lookup m k = Inherited \<Longrightarrow> k \<in> set Object_prototype_keys"
  by (auto simp add: opt_lookup_def record_get_def split: option.splits if_splits)

lemma allowedIntents_Own:
  assumes "nullish_or (nullish_or (opt_lookup (allowed_patterns intent) p) (opt_lookup (intents policy) p))
             (Own []) = Own l"
      and "patterns constitution = Some policy"
  shows "l = permitted_intents constitution intent p"
proof (cases "opt_lookup (allowed_patterns intent) p")
  case (Own v)
  with assms show ?thesis
    by (simp add: nullish_or_def permitted_intents_def opt_lookup_Own[THEN iffD1, OF Own])
next
  case Inherited
  with assms show ?thesis by (simp add: nullish_or_def)
next
  case Absent
  then have none: "mapping_entry (allowed_patterns intent) p = None"
    using opt_lookup_not_Own[of "allowed_patterns intent" p] by simp
  show ?thesis
  proof (cases "opt_lookup (intents policy) p")
    case (Own v)
    with assms Absent show ?thesis
      by (simp add: nullish_or_def permitted_intents_def none opt_lookup_Own[THEN iffD1, OF Own])
  next
    case Inherited
    with assms Absent show ?thesis by (simp add: nullish_or_def)
  next
    case Absent2: Absent
    then have "mapping_entry (intents policy) p = None"
      using opt_lookup_not_Own[of "intents policy" p] by simp
    with assms Absent Absent2 show ?thesis
      by (simp add: nullish_or_def permitted_intents_def none)
  qed
qed

lemma allowedIntents_plain:
  assumes "p \<notin> set Object_prototype_keys"
  shows "\<exists>l. nullish_or (nullish_or (opt_lookup a p) (opt_lookup b p)) (Own []) = Own l"
proof -
  have "opt_lookup a p \<noteq> Inherited" "opt_lookup b p \<noteq> Inherited"
    using assms opt_lookup_Inherited by blast+
  then show ?thesis
    by (cases "opt_lookup a p"; cases "opt_lookup b p") (simp_all add: nullish_or_def)
qed

lemma patterns_loop_Cons_Inr:
  assumes "patterns_loop c i (new_Set (case patterns c of None \<Rightarrow> [] | Some policy \<Rightarrow> allowed policy))
             (e # rest) = Inr res"
  shows "(usage_permitted c i e \<longrightarrow>
            patterns_loop c i (new_Set (case patterns c of None \<Rightarrow> [] | Some policy \<Rightarrow> allowed policy))
              rest = Inr res) \<and>
         (\<not> usage_permitted c i e \<longrightarrow>
            \<not> fst res \<and>
            patterns_loop c i (new_Set (case patterns c of None \<Rightarrow> [] | Some policy \<Rightarrow> allowed policy))
              [e] = Inr res)"
proof (cases "patterns c")
  case None
  with assms show ?thesis by (auto simp add: usage_permitted_def)
next
  case (Some policy)
  show ?thesis
  proof (cases "usage_pattern e \<in> set (allowed policy)")
    case False
    with assms Some show ?thesis
      by (auto simp add: usage_permitted_def Set_has_new_Set)
  next
    case True
    let ?look = "nullish_or (nullish_or (opt_lookup (allowed_patterns i) (usage_pattern e))
                                        (opt_lookup (intents policy) (usage_pattern e))) (Own [])"
    from assms Some True obtain l where own: "?look = Own l"
      by (cases ?look) (simp_all add: Set_has_new_Set)
    from allowedIntents_Own[OF own Some] have l: "l = permitted_intents c i (usage_pattern e)" .
    have perm: "usage_permitted c i e = (usage_intent e \<in> set l)"
      using True by (simp add: usage_permitted_def Some l)
    from assms show ?thesis
      by (auto simp add: Some True Set_has_new_Set own perm Array_includes_def split: if_splits)
  qed
qed

lemma patterns_loop_passed:
  "patterns_loop c i (new_Set (case patterns c of None \<Rightarrow> [] | Some policy \<Rightarrow> allowed policy)) usage = Inr res
     \<Longrightarrow> fst res = list_all (usage_permitted c i) usage"
proof (induction usage)
  case Nil
  then show ?case by auto
next
  case (Cons e rest)
  note step = patterns_loop_Cons_Inr[OF Cons.prems]
  show ?case
  proof (cases "usage_permitted c i e")
    case True
    with step have "patterns_loop c i
        (new_Set (case patterns c of None \<Rightarrow> [] | Some policy \<Rightarrow> allowed policy)) rest = Inr res"
      by blast
    from Cons.IH[OF this] True show ?thesis by simp
  next
    case False
    with step show ?thesis by simp
  qed
qed

lemma patterns_loop_first:
  "patterns_loop c i (new_Set (case patterns c of None \<Rightarrow> [] | Some policy \<Rightarrow> allowed policy)) usage = Inr res
     \<Longrightarrow> find (\<lambda>e. \<not> usage_permitted c i e) usage = Some e
     \<Longrightarrow> patterns_loop c i (new_Set (case patterns c of None \<Rightarrow> [] | Some policy \<Rightarrow> allowed policy)) [e] = Inr res"
proof (induction usage)
  case Nil
  then show ?case by simp
next
  case (Cons u rest)
  note step = patterns_loop_Cons_Inr[OF Cons.prems(1)]
  show ?case
  proof (cases "usage_permitted c i u")
    case True
    with Cons.prems(2) have "find (\<lambda>e. \<not> usage_permitted c i e) rest = Some e" by simp
    moreover from step True have
      "patterns_loop c i (new_Set (case patterns c of None \<Rightarrow> [] | Some policy \<Rightarrow> allowed policy)) rest
         = Inr res" by blast
    ultimately show ?thesis by (rule Cons.IH[rotated])
  next
    case False
    with Cons.prems(2) have "e = u" by simp
    with step False show ?thesis by blast
  qed
qed

lemma patterns_loop_plain:
  "plain_patterns usage \<Longrightarrow>
     \<exists>res. patterns_loop c i S usage = Inr res"
proof (induction usage)
  case Nil
  show ?case by auto
next
  case (Cons e rest)
  then have plain: "usage_pattern e \<notin> set Object_prototype_keys"
    and rest: "\<exists>res. patterns_loop c i S rest = Inr res"
    by (simp_all add: plain_patterns_def)
  show ?case
  proof (cases "patterns c")
    case None
    then show ?thesis by auto
  next
    case (Some policy)
    from allowedIntents_plain[OF plain, of "allowed_patterns i" "intents policy"]
    obtain l where "nullish_or (nullish_or (opt_lookup (allowed_patterns i) (usage_pattern e))
                      (opt_lookup (intents policy) (usage_pattern e))) (Own []) = Own l"
      by (elim exE)
    with rest Some show ?thesis by auto
  qed
qed

lemma patterns_intent_rule_passed:
  assumes "patterns_intent_rule ruleset manifest constitution intent = Inr r"
  shows "tr_passed r = list_all (usage_permitted constitution intent) (patterns_usage (taste manifest))"
proof -
  from assms obtain res where
    loop: "patterns_loop constitution intent
             (new_Set (case patterns constitution of None \<Rightarrow> [] | Some policy \<Rightarrow> allowed policy))
             (patterns_usage (taste manifest)) = Inr res"
    and r: "tr_passed r = fst res"
    by (auto simp add: patterns_intent_rule_def buildResult_def Let_def split: sum.splits)
  from patterns_loop_passed[OF loop] r show ?thesis by simp
qed

lemma patterns_intent_rule_first:
  assumes "patterns_intent_rule ruleset manifest constitution intent = Inr r"
      and "find (\<lambda>e. \<not> usage_permitted constitution intent e) (patterns_usage (taste manifest)) = Some e"
  shows "patterns_intent_rule ruleset (with_usage manifest [e]) constitution intent = Inr r"
proof -
  from assms(1) obtain res where
    loop: "patterns_loop constitution intent
             (new_Set (case patterns constitution of None \<Rightarrow> [] | Some policy \<Rightarrow> allowed policy))
             (patterns_usage (taste manifest)) = Inr res"
    by (auto simp add: patterns_intent_rule_def Let_def split: sum.splits)
  from patterns_loop_first[OF loop assms(2)] assms(1) loop show ?thesis
    by (simp add: patterns_intent_rule_def with_usage_def Let_def)
qed

lemma patterns_intent_rule_plain:
  assumes "plain_patterns (patterns_usage (taste manifest))"
  shows "\<exists>r. patterns_intent_rule ruleset manifest constitution intent = Inr r"
proof -
  from patterns_loop_plain[OF assms] obtain res where
    "patterns_loop constitution intent
       (new_Set (case patterns constitution of None \<Rightarrow> [] | Some policy \<Rightarrow> allowed policy))
       (patterns_usage (taste manifest)) = Inr res"
    by blast
  then show ?thesis
    by (cases res) (simp add: patterns_intent_rule_def Let_def)
qed

subsection \<open>Allowed consistency values\<close>

lemma checkAllowedValues_None:
  "(checkAllowedValues band vals = None) =
     (\<forall>v \<in> set (String_values vals). \<exists>a \<in> set (allowed_strings band). a = v)"
proof -
  have "(checkAllowedValues band vals = None) =
          (find (\<lambda>v. \<not> Set_has (new_Set (allowed_strings band)) v) (String_values vals) = None)"
    by (simp add: checkAllowedValues_def allowed_strings_def Let_def split: option.splits)
  then show ?thesis
    by (auto simp add: find_None_iff Set_has_new_Set)
qed

lemma checkAllowedValues_truthy:
  "truthy (checkAllowedValues band vals) = (checkAllowedValues band vals \<noteq> None)"
  by (auto simp add: checkAllowedValues_def truthy_def Let_def split: option.splits)

lemma consistency_allowed_rule_passed:
  "tr_passed (consistency_allowed_rule ruleset manifest constitution) =
     (checkAllowedValues (radius (consistency constitution)) (Numbers (mc_radius (declared_consistency (taste manifest)))) = None \<and>
      checkAllowedValues (elevation (consistency constitution)) (Numbers (mc_elevation (declared_consistency (taste manifest)))) = None \<and>
      checkAllowedValues (motion (consistency constitution)) (Strings (mc_motion (declared_consistency (taste manifest)))) = None)"
  by (auto simp add: consistency_allowed_rule_def buildResult_def Let_def or_else_def checkAllowedValues_truthy)

section \<open>Properties of the renderer contract validator\<close>

text \<open>
  C2. When the two schema files load and compile, \<open>buildRendererValidationReport\<close>
  returns a report whose first two rules are the manifest schema rule and the registry
  schema rule, each carrying the verdict of its own validator whatever the other verdict
  is. When at least one document is schema-invalid the report has exactly these two
  rules, status failed and the sentinel renderer identity, and it does not depend on the
  typed reading of the documents: none of the six semantic checks is evaluated.
\<close>

theorem schema_gate:
  assumes "readJsonFile h (case contractSchemaPath opts of Some p \<Rightarrow> p
                           | None \<Rightarrow> defaultContractSchemaPath h) = Inr cs"
      and "readJsonFile h (case registrySchemaPath opts of Some p \<Rightarrow> p
                           | None \<Rightarrow> defaultRegistrySchemaPath h) = Inr rs"
      and "ajv_compile h cs = Inr cv"
      and "ajv_compile h rs = Inr rv"
  shows "\<exists>r. buildRendererValidationReport h mr rr opts = Inr r \<and>
             take 2 (rv_rules r) = [manifest_schema_rule cv mr, registry_schema_rule rv rr] \<and>
             vr_passed (manifest_schema_rule cv mr) = fst (cv mr) \<and>
             vr_passed (registry_schema_rule rv rr) = fst (rv rr) \<and>
             (\<not> fst (cv mr) \<or> \<not> fst (rv rr) \<longrightarrow>
                rv_rules r = [manifest_schema_rule cv mr, registry_schema_rule rv rr] \<and>
                length (rv_rules r) = 2 \<and>
                rv_status r = Failed \<and>
                rv_renderer r = \<lparr>ri_name = ''unknown'', ri_version = ''unknown'', ri_target = ''unknown''\<rparr> \<and>
                (\<forall>f g. buildRendererValidationReport (h\<lparr>as_manifest := f, as_registry := g\<rparr>) mr rr opts
                         = Inr r))"
proof -
  let ?r = "validateDocuments h cv rv mr rr"
  have run: "buildRendererValidationReport h mr rr opts = Inr ?r"
    using assms by (rule buildRendererValidationReport_loaded)
  have first_two: "take 2 (rv_rules ?r) = [manifest_schema_rule cv mr, registry_schema_rule rv rr]"
    by (simp add: validateDocuments_def Let_def)
  have gate: "rv_rules ?r = [manifest_schema_rule cv mr, registry_schema_rule rv rr] \<and>
              length (rv_rules ?r) = 2 \<and> rv_status ?r = Failed \<and>
              rv_renderer ?r = \<lparr>ri_name = ''unknown'', ri_version = ''unknown'', ri_target = ''unknown''\<rparr> \<and>
              (\<forall>f g. buildRendererValidationReport (h\<lparr>as_manifest := f, as_registry := g\<rparr>) mr rr opts
                       = Inr ?r)"
    if invalid: "\<not> fst (cv mr) \<or> \<not> fst (rv rr)"
  proof -
    note stopped = validateDocuments_invalid[where cv = cv and mr = mr and rv = rv and rr = rr, OF invalid]
    have "buildRendererValidationReport (h\<lparr>as_manifest := f, as_registry := g\<rparr>) mr rr opts = Inr ?r"
      for f g
    proof -
      let ?h = "h\<lparr>as_manifest := f, as_registry := g\<rparr>"
      have "buildRendererValidationReport ?h mr rr opts = Inr (validateDocuments ?h cv rv mr rr)"
        using assms
        by (intro buildRendererValidationReport_loaded[where cs = cs and rs = rs])
           (simp_all add: defaultContractSchemaPath_def defaultRegistrySchemaPath_def
              cong: option.case_cong)
      moreover have "validateDocuments ?h cv rv mr rr = ?r"
        by (simp add: stopped)
      ultimately show ?thesis by simp
    qed
    then show ?thesis
      by (simp add: stopped unknownRenderer_def)
  qed
  show ?thesis
    using run first_two gate by (intro exI[of _ ?r]) (simp add: schema_rule_passed)
qed

text \<open>An untyped document that is no manifest, with a valid registry.\<close>

theorem schema_gate_witness:
  "\<exists>r. buildRendererValidationReport demo_contract_host OtherDoc (RegistryDoc demo_registry) no_options
          = Inr r \<and>
       rv_rules r =
         [\<lparr>vr_id = ''renderer-manifest.schema'', vr_passed = False,
           vr_message = ''Renderer manifest fails contracts/renderer-contract.schema.json validation.'',
           vr_counterexample = Some ''(root) must be object''\<rparr>,
          \<lparr>vr_id = ''renderer-registry.schema'', vr_passed = True,
           vr_message = ''Renderer registry matches contracts/renderer-registry.schema.json.'',
           vr_counterexample = None\<rparr>] \<and>
       rv_status r = Failed \<and>
       rv_renderer r = \<lparr>ri_name = ''unknown'', ri_version = ''unknown'', ri_target = ''unknown''\<rparr>"
proof -
  have invalid: "\<not> fst (demo_validate ContractSchema OtherDoc)"
    by (simp add: demo_validate_def)
  have m: "manifest_schema_rule (demo_validate ContractSchema) OtherDoc =
             \<lparr>vr_id = ''renderer-manifest.schema'', vr_passed = False,
              vr_message = ''Renderer manifest fails contracts/renderer-contract.schema.json validation.'',
              vr_counterexample = Some ''(root) must be object''\<rparr>"
    by (simp add: manifest_schema_rule_def demo_validate_def ruleResult_def formatSchemaErrors_def
          formatSchemaError_def formatInstancePath_def first_elem_def truthy_def trim_def is_space_def Let_def)
  have g: "registry_schema_rule (demo_validate RegistrySchema) (RegistryDoc demo_registry) =
             \<lparr>vr_id = ''renderer-registry.schema'', vr_passed = True,
              vr_message = ''Renderer registry matches contracts/renderer-registry.schema.json.'',
              vr_counterexample = None\<rparr>"
    by (simp add: registry_schema_rule_def demo_validate_def ruleResult_def Let_def)
  from schema_gate[OF demo_contract_host_loads(1) demo_contract_host_loads(2)
        demo_contract_host_loads(3) demo_contract_host_loads(3),
        of OtherDoc "RegistryDoc demo_registry"] invalid
  show ?thesis
    unfolding m g by blast
qed

text \<open>
  C7 (as the code has it). \<open>renderer-contract.registry.rule\<close> passes only if the
  renderer is registered and the matched entry's contract id equals the manifest's
  contract id; the matched entry is the first entry of the registry with the manifest's
  name, version and target, and the renderer is unregistered exactly when no entry
  matches. When the renderer is not registered the rule fails with the message of a
  contract mismatch, ``Renderer registry contract does not match the manifest contract.'',
  and with the counterexample ``Renderer entry missing from registry.''; when it is
  registered under another contract the rule fails with the same message and a
  counterexample that names the two contract ids instead.
\<close>

theorem registry_contract_rule_spec:
  "(vr_passed (registry_contract_rule manifest registry) =
      (\<exists>entry. registeredRenderer manifest registry = Some entry \<and>
               contract_id entry = contract_id_of (contract manifest))) \<and>
   (\<forall>entry. registeredRenderer manifest registry = Some entry \<longrightarrow>
      (\<exists>k < length (renderers registry).
          renderers registry ! k = entry \<and>
          matches_renderer manifest entry \<and>
          (\<forall>j < k. \<not> matches_renderer manifest (renderers registry ! j)))) \<and>
   ((registeredRenderer manifest registry = None) =
      (\<forall>entry \<in> set (renderers registry). \<not> matches_renderer manifest entry)) \<and>
   (registeredRenderer manifest registry = None \<longrightarrow>
      \<not> vr_passed (registry_contract_rule manifest registry) \<and>
      vr_message (registry_contract_rule manifest registry) =
        ''Renderer registry contract does not match the manifest contract.'' \<and>
      vr_counterexample (registry_contract_rule manifest registry) =
        Some ''Renderer entry missing from registry.'') \<and>
   (\<forall>entry. registeredRenderer manifest registry = Some entry \<and>
            contract_id entry \<noteq> contract_id_of (contract manifest) \<longrightarrow>
      \<not> vr_passed (registry_contract_rule manifest registry) \<and>
      vr_message (registry_contract_rule manifest registry) =
        ''Renderer registry contract does not match the manifest contract.'' \<and>
      vr_counterexample (registry_contract_rule manifest registry) =
        Some (''registry.contract_id='' @ contract_id entry @
              '', manifest.contract.id='' @ contract_id_of (contract manifest)) \<and>
      vr_counterexample (registry_contract_rule manifest registry) \<noteq>
        Some ''Renderer entry missing from registry.'')"
proof -
  let ?R = "registry_contract_rule manifest registry"
  have find_eq: "registeredRenderer manifest registry = find (matches_renderer manifest) (renderers registry)"
  proof -
    have "matches_renderer manifest =
            (\<lambda>entry. re_name entry = rm_name (renderer manifest) \<and>
                     re_version entry = rm_version (renderer manifest) \<and>
                     re_target entry = rm_target (renderer manifest))"
      by (rule ext) (simp add: matches_renderer_def)
    then show ?thesis by (simp add: registeredRenderer_def)
  qed
  have found: "\<exists>k < length (renderers registry).
          renderers registry ! k = entry \<and> matches_renderer manifest entry \<and>
          (\<forall>j < k. \<not> matches_renderer manifest (renderers registry ! j))"
    if "registeredRenderer manifest registry = Some entry" for entry
    using that unfolding find_eq find_Some_iff by blast
  have missing: "(registeredRenderer manifest registry = None) =
      (\<forall>entry \<in> set (renderers registry). \<not> matches_renderer manifest entry)"
    unfolding find_eq find_None_iff by blast
  have passed: "vr_passed ?R =
      (\<exists>entry. registeredRenderer manifest registry = Some entry \<and>
               contract_id entry = contract_id_of (contract manifest))"
    by (cases "registeredRenderer manifest registry")
       (simp_all add: registry_contract_rule_def ruleResult_def Let_def)
  have unregistered: "\<not> vr_passed ?R \<and>
      vr_message ?R = ''Renderer registry contract does not match the manifest contract.'' \<and>
      vr_counterexample ?R = Some ''Renderer entry missing from registry.''"
    if "registeredRenderer manifest registry = None"
    using that by (simp add: registry_contract_rule_def ruleResult_def Let_def)
  have mismatch: "\<not> vr_passed ?R \<and>
      vr_message ?R = ''Renderer registry contract does not match the manifest contract.'' \<and>
      vr_counterexample ?R =
        Some (''registry.contract_id='' @ contract_id entry @
              '', manifest.contract.id='' @ contract_id_of (contract manifest)) \<and>
      vr_counterexample ?R \<noteq> Some ''Renderer entry missing from registry.''"
    if "registeredRenderer manifest registry = Some entry"
       "contract_id entry \<noteq> contract_id_of (contract manifest)" for entry
    using that by (simp add: registry_contract_rule_def ruleResult_def Let_def)
  show ?thesis
    using passed found missing unregistered mismatch by blast
qed

text \<open>
  The demo manifest against an empty registry, a stale registry, its own registry, and
  two registries that hold both entries: the first matching entry decides.
\<close>

theorem registry_contract_rule_spec_witness:
  "registeredRenderer demo_manifest empty_registry = None \<and>
   \<not> vr_passed (registry_contract_rule demo_manifest empty_registry) \<and>
   vr_counterexample (registry_contract_rule demo_manifest empty_registry) =
     Some ''Renderer entry missing from registry.'' \<and>
   registeredRenderer demo_manifest stale_registry =
     Some \<lparr>re_name = ''web'', re_version = ''1.0.0'', re_target = ''html'',
           contract_id = ''renderer-contract/v0''\<rparr> \<and>
   \<not> vr_passed (registry_contract_rule demo_manifest stale_registry) \<and>
   vr_counterexample (registry_contract_rule demo_manifest stale_registry) =
     Some ''registry.contract_id=renderer-contract/v0, manifest.contract.id=renderer-contract/v1'' \<and>
   vr_passed (registry_contract_rule demo_manifest demo_registry) \<and>
   matches_renderer demo_manifest (renderers stale_first_registry ! 0) \<and>
   matches_renderer demo_manifest (renderers stale_first_registry ! 1) \<and>
   \<not> vr_passed (registry_contract_rule demo_manifest stale_first_registry) \<and>
   vr_passed (registry_contract_rule demo_manifest stale_last_registry)"
proof -
  let ?old = "\<lparr>re_name = ''web'', re_version = ''1.0.0'', re_target = ''html'',
           contract_id = ''renderer-contract/v0''\<rparr>"
  let ?new = "\<lparr>re_name = ''web'', re_version = ''1.0.0'', re_target = ''html'',
           contract_id = ''renderer-contract/v1''\<rparr>"
  have none: "registeredRenderer demo_manifest empty_registry = None"
    by (simp add: registeredRenderer_def empty_registry_def)
  have stale: "registeredRenderer demo_manifest stale_registry = Some ?old"
    by (simp add: registeredRenderer_def stale_registry_def demo_manifest_def)
  have ok: "registeredRenderer demo_manifest demo_registry = Some ?new"
    by (simp add: registeredRenderer_def demo_registry_def demo_manifest_def)
  have first: "registeredRenderer demo_manifest stale_first_registry = Some ?old"
    by (simp add: registeredRenderer_def stale_first_registry_def stale_registry_def demo_registry_def
          demo_manifest_def)
  have last: "registeredRenderer demo_manifest stale_last_registry = Some ?new"
    by (simp add: registeredRenderer_def stale_last_registry_def stale_registry_def demo_registry_def
          demo_manifest_def)
  have both: "matches_renderer demo_manifest (renderers stale_first_registry ! 0)"
             "matches_renderer demo_manifest (renderers stale_first_registry ! 1)"
    by (simp_all add: matches_renderer_def stale_first_registry_def stale_registry_def demo_registry_def
          demo_manifest_def)
  have cid: "contract_id_of (contract demo_manifest) = ''renderer-contract/v1''"
    by (simp add: demo_manifest_def)
  have neq: "contract_id ?old \<noteq> contract_id_of (contract demo_manifest)"
    and eq: "contract_id ?new = contract_id_of (contract demo_manifest)"
    by (simp_all add: cid)
  have a: "\<not> vr_passed (registry_contract_rule demo_manifest empty_registry) \<and>
           vr_counterexample (registry_contract_rule demo_manifest empty_registry) =
             Some ''Renderer entry missing from registry.''"
    using registry_contract_rule_spec[of demo_manifest empty_registry] none by blast
  have b1: "vr_counterexample (registry_contract_rule demo_manifest stale_registry) =
             Some (''registry.contract_id='' @ contract_id ?old @
                   '', manifest.contract.id='' @ contract_id_of (contract demo_manifest))"
    using registry_contract_rule_spec[of demo_manifest stale_registry] stale neq by blast
  have b2: "\<not> vr_passed (registry_contract_rule demo_manifest stale_registry)"
    using registry_contract_rule_spec[of demo_manifest stale_registry] stale neq by blast
  have c: "vr_passed (registry_contract_rule demo_manifest demo_registry)"
    using registry_contract_rule_spec[of demo_manifest demo_registry] ok eq by blast
  have d: "\<not> vr_passed (registry_contract_rule demo_manifest stale_first_registry)"
    using registry_contract_rule_spec[of demo_manifest stale_first_registry] first neq by blast
  have e: "vr_passed (registry_contract_rule demo_manifest stale_last_registry)"
    using registry_contract_rule_spec[of demo_manifest stale_last_registry] last eq by blast
  from b1 have b: "vr_counterexample (registry_contract_rule demo_manifest stale_registry) =
     Some ''registry.contract_id=renderer-contract/v0, manifest.contract.id=renderer-contract/v1''"
    by (simp add: cid)
  from none stale a b b2 c both d e show ?thesis by blast
qed

text \<open>
  C7 as stated fails: the message of the rule for an unregistered renderer is not
  distinct and does not refer to a missing entry. It is the contract mismatch message,
  the same as for a renderer registered under another contract; the counterexample
  field alone tells the two cases apart.
\<close>

theorem unregistered_message_counterexample:
  "registeredRenderer demo_manifest empty_registry = None \<and>
   registeredRenderer demo_manifest stale_registry \<noteq> None \<and>
   vr_message (registry_contract_rule demo_manifest empty_registry) =
     ''Renderer registry contract does not match the manifest contract.'' \<and>
   vr_message (registry_contract_rule demo_manifest empty_registry) =
     vr_message (registry_contract_rule demo_manifest stale_registry)"
  by (simp add: registry_contract_rule_def registeredRenderer_def ruleResult_def Let_def
        empty_registry_def stale_registry_def demo_manifest_def)

section \<open>Properties of single taste rules\<close>

text \<open>
  C6. \<open>density.limit.rule\<close> fails whenever the intent document has no density limit,
  with the message ``Design intent missing density limit.'' and a result that does not
  depend on the manifest; when the limit is present the rule passes exactly when the
  declared interactions per view are at most the limit. The rule is the seventh result
  of an evaluation.
\<close>

theorem density_limit_rule_spec:
  "(intent_limit intent = None \<longrightarrow>
      \<not> tr_passed (density_limit_rule ruleset manifest intent) \<and>
      tr_message (density_limit_rule ruleset manifest intent) = ''Design intent missing density limit.'' \<and>
      density_limit_rule ruleset manifest intent =
        buildResult (getRuleMeta ''density.limit.rule'' ruleset) False
          ''Design intent missing density limit.'' (Some ''Design intent missing density limit.'')) \<and>
   (\<forall>limit. intent_limit intent = Some limit \<longrightarrow>
      tr_passed (density_limit_rule ruleset manifest intent) =
        (interactions_per_view (taste manifest) \<le> limit)) \<and>
   tr_id (density_limit_rule ruleset manifest intent) = ''density.limit.rule'' \<and>
   taste_rules ruleset manifest constitution intent ! 6 = density_limit_rule ruleset manifest intent"
proof -
  have meta: "m_id (getRuleMeta i ruleset) = i" for i
    by (auto simp add: getRuleMeta_def find_Some_iff split: option.splits)
  show ?thesis
    by (cases "intent_limit intent")
       (simp_all add: density_limit_rule_def intent_limit_def buildResult_def Let_def taste_rules_def
          first_nine_rules_def meta)
qed

text \<open>Intent documents without a density block, without a limit, and with limit 5.\<close>

theorem density_limit_rule_spec_witness:
  "intent_limit \<lparr>density = None, allowed_patterns = None\<rparr> = None \<and>
   intent_limit \<lparr>density = Some \<lparr>max_interactions_per_view = None\<rparr>, allowed_patterns = None\<rparr> = None \<and>
   tr_message (density_limit_rule demo_ruleset demo_manifest \<lparr>density = None, allowed_patterns = None\<rparr>) =
     ''Design intent missing density limit.'' \<and>
   \<not> tr_passed (density_limit_rule demo_ruleset demo_manifest \<lparr>density = None, allowed_patterns = None\<rparr>) \<and>
   \<not> tr_passed (density_limit_rule demo_ruleset demo_manifest
       \<lparr>density = Some \<lparr>max_interactions_per_view = None\<rparr>, allowed_patterns = None\<rparr>) \<and>
   intent_limit demo_intent = Some 5 \<and>
   interactions_per_view (taste demo_manifest) = 3 \<and>
   tr_passed (density_limit_rule demo_ruleset demo_manifest demo_intent)"
proof -
  have n1: "intent_limit \<lparr>density = None, allowed_patterns = None\<rparr> = None"
    and n2: "intent_limit \<lparr>density = Some \<lparr>max_interactions_per_view = None\<rparr>, allowed_patterns = None\<rparr> = None"
    and s: "intent_limit demo_intent = Some 5"
    and a: "interactions_per_view (taste demo_manifest) = 3"
    by (simp_all add: intent_limit_def demo_intent_def demo_manifest_def)
  have p: "tr_passed (density_limit_rule demo_ruleset demo_manifest demo_intent)"
    using density_limit_rule_spec[of demo_intent demo_ruleset demo_manifest] s a by simp
  from density_limit_rule_spec[of "\<lparr>density = None, allowed_patterns = None\<rparr>" demo_ruleset demo_manifest]
       density_limit_rule_spec[of "\<lparr>density = Some \<lparr>max_interactions_per_view = None\<rparr>, allowed_patterns = None\<rparr>"
          demo_ruleset demo_manifest]
       n1 n2 s a p
  show ?thesis by blast
qed

text \<open>
  C9. With an empty list of declared pattern usages the patterns block does not throw
  and \<open>patterns.intent.rule\<close> passes, whatever the constitution and the intent document
  are, also when the constitution has no patterns policy.
\<close>

theorem empty_usage_passes:
  assumes "patterns_usage (taste manifest) = []"
  shows "\<exists>r. patterns_intent_rule ruleset manifest constitution intent = Inr r \<and>
             tr_passed r \<and>
             tr_message r = ''Pattern usage aligns with intent and constitution.'' \<and>
             tr_counterexample r = None"
  using assms by (simp add: patterns_intent_rule_def buildResult_def Let_def)

text \<open>
  A constitution without a patterns policy: the rule passes on no usage and fails on
  the usage of the demo manifest.
\<close>

theorem empty_usage_passes_witness:
  "patterns (demo_constitution\<lparr>patterns := None\<rparr>) = None \<and>
   patterns_usage (taste (with_usage demo_manifest [])) = [] \<and>
   (\<exists>r. patterns_intent_rule demo_ruleset (with_usage demo_manifest [])
           (demo_constitution\<lparr>patterns := None\<rparr>) demo_intent = Inr r \<and> tr_passed r) \<and>
   (\<exists>r. patterns_intent_rule demo_ruleset demo_manifest
           (demo_constitution\<lparr>patterns := None\<rparr>) demo_intent = Inr r \<and> \<not> tr_passed r)"
proof -
  have e: "patterns_usage (taste (with_usage demo_manifest [])) = []"
    by (simp add: with_usage_def)
  have f: "\<exists>r. patterns_intent_rule demo_ruleset demo_manifest
           (demo_constitution\<lparr>patterns := None\<rparr>) demo_intent = Inr r \<and> \<not> tr_passed r"
    by (simp add: patterns_intent_rule_def buildResult_def Let_def demo_manifest_def)
  from empty_usage_passes[OF e, of demo_ruleset "demo_constitution\<lparr>patterns := None\<rparr>" demo_intent] e f
  show ?thesis by auto
qed

text \<open>
  C10. \<open>checkAllowedValues\<close> accepts the declared values of an axis exactly when the
  string form of each of them equals the string form of some allowed value of the band,
  and \<open>consistency.allowed.rule\<close> passes exactly when the three axes are accepted. The
  number 8 and the string ``8'' have the same string form, so each is accepted where the
  band lists the other.
\<close>

theorem allowed_values_by_string_form:
  "(checkAllowedValues band vals = None) =
     (\<forall>v \<in> set (String_values vals). \<exists>a \<in> set (allowed_strings band). a = v) \<and>
   tr_passed (consistency_allowed_rule ruleset manifest constitution) =
     (checkAllowedValues (radius (consistency constitution))
        (Numbers (mc_radius (declared_consistency (taste manifest)))) = None \<and>
      checkAllowedValues (elevation (consistency constitution))
        (Numbers (mc_elevation (declared_consistency (taste manifest)))) = None \<and>
      checkAllowedValues (motion (consistency constitution))
        (Strings (mc_motion (declared_consistency (taste manifest)))) = None) \<and>
   String_values (Numbers [8]) = String_values (Strings [''8'']) \<and>
   checkAllowedValues \<lparr>allowed_values = Some (Strings [''8'']), max_variance = None\<rparr> (Numbers [8]) = None \<and>
   checkAllowedValues \<lparr>allowed_values = Some (Numbers [8]), max_variance = None\<rparr> (Strings [''8'']) = None"
proof -
  have eight: "String_values (Numbers [8]) = [''8'']" "String_values (Strings [''8'']) = [''8'']"
    by (simp_all add: String_values_def String_number_def digits.simps)
  have ex1: "checkAllowedValues \<lparr>allowed_values = Some (Strings [''8'']), max_variance = None\<rparr> (Numbers [8]) = None"
    unfolding checkAllowedValues_None allowed_strings_def by (simp add: eight)
  have ex2: "checkAllowedValues \<lparr>allowed_values = Some (Numbers [8]), max_variance = None\<rparr> (Strings [''8'']) = None"
    unfolding checkAllowedValues_None allowed_strings_def by (simp add: eight)
  show ?thesis
    using checkAllowedValues_None[of band vals]
          consistency_allowed_rule_passed[of ruleset manifest constitution] eight ex1 ex2
    by simp
qed

text \<open>The radius band of the demo constitution lists the strings ``4'' and ``8''.\<close>

theorem allowed_values_by_string_form_witness:
  "checkAllowedValues (radius (consistency demo_constitution)) (Numbers [8]) = None \<and>
   checkAllowedValues (radius (consistency demo_constitution)) (Numbers [8, 6]) =
     Some ''6 not in allowed set: 4, 8'' \<and>
   tr_passed (consistency_allowed_rule demo_ruleset demo_manifest demo_constitution)"
proof -
  have s: "allowed_strings (radius (consistency demo_constitution)) = [''4'', ''8'']"
          "allowed_strings (elevation (consistency demo_constitution)) = [''0'', ''1'']"
          "allowed_strings (motion (consistency demo_constitution)) = [''ease'']"
    by (simp_all add: allowed_strings_def demo_constitution_def String_values_def String_number_def digits.simps)
  have v: "String_values (Numbers [8]) = [''8'']" "String_values (Numbers [0]) = [''0'']"
          "String_values (Strings [''ease'']) = [''ease'']"
    by (simp_all add: String_values_def String_number_def digits.simps)
  have d: "mc_radius (declared_consistency (taste demo_manifest)) = [8]"
          "mc_elevation (declared_consistency (taste demo_manifest)) = [0]"
          "mc_motion (declared_consistency (taste demo_manifest)) = [''ease'']"
    by (simp_all add: demo_manifest_def)
  have a: "checkAllowedValues (radius (consistency demo_constitution)) (Numbers [8]) = None"
    using allowed_values_by_string_form[of "radius (consistency demo_constitution)" "Numbers [8]"]
    by (simp add: s v)
  have b: "checkAllowedValues (elevation (consistency demo_constitution)) (Numbers [0]) = None"
    using allowed_values_by_string_form[of "elevation (consistency demo_constitution)" "Numbers [0]"]
    by (simp add: s v)
  have c: "checkAllowedValues (motion (consistency demo_constitution)) (Strings [''ease'']) = None"
    using allowed_values_by_string_form[of "motion (consistency demo_constitution)" "Strings [''ease'']"]
    by (simp add: s v)
  have bad: "checkAllowedValues (radius (consistency demo_constitution)) (Numbers [8, 6]) =
     Some ''6 not in allowed set: 4, 8''"
    by (simp add: checkAllowedValues_def demo_constitution_def String_values_def String_number_def
          digits.simps new_Set_def Set_add_def Set_has_def Let_def)
  have p: "tr_passed (consistency_allowed_rule demo_ruleset demo_manifest demo_constitution)"
    using allowed_values_by_string_form[of _ _ demo_ruleset demo_manifest demo_constitution] a b c
    by (simp add: d)
  from a bad p show ?thesis by blast
qed

lemma list_all_adjacent:
  "list_all P (zip xs (tl xs)) = (\<forall>k. Suc k < length xs \<longrightarrow> P (xs ! k, xs ! Suc k))"
proof (induction xs)
  case Nil
  show ?case by simp
next
  case (Cons x xs)
  show ?case
  proof (cases xs)
    case Nil
    then show ?thesis by simp
  next
    case (Cons y ys)
    have "(\<forall>k. Suc k < length (x # xs) \<longrightarrow> P ((x # xs) ! k, (x # xs) ! Suc k)) =
          (P (x, y) \<and> (\<forall>k. Suc k < length xs \<longrightarrow> P (xs ! k, xs ! Suc k)))"
      (is "?L = ?R")
    proof
      assume l: ?L
      have "P (x, y)" using l[rule_format, of 0] Cons by simp
      moreover have "P (xs ! k, xs ! Suc k)" if "Suc k < length xs" for k
        using l[rule_format, of "Suc k"] that by simp
      ultimately show ?R by blast
    next
      assume r: ?R
      show ?L
      proof (intro allI impI)
        fix k assume "Suc k < length (x # xs)"
        then show "P ((x # xs) ! k, (x # xs) ! Suc k)"
          using r Cons by (cases k) auto
      qed
    qed
    then show ?thesis using Cons.IH Cons by simp
  qed
qed

text \<open>
  C5. \<open>typography.hierarchy.rule\<close> passes exactly when every declared role is in
  range of its entry in the constitution's role table and every adjacent pair of the
  hierarchy list is ordered: a pair with a name that is not declared is skipped, and for
  a pair with both names declared the earlier declared size is at least the later one.
  With declared roles in range and a hierarchy of two names whose sizes are inverted,
  the rule fails with the counterexample that names both roles and sizes.
\<close>

theorem typography_hierarchy_rule_spec:
  "tr_passed (typography_hierarchy_rule ruleset manifest constitution) =
     ((\<forall>r \<in> set (typography_roles (taste manifest)).
          role_in_range (roles (typography constitution)) r) \<and>
      (\<forall>k. Suc k < length (hierarchy (typography constitution)) \<longrightarrow>
          pair_ordered (typography_roles (taste manifest))
            (hierarchy (typography constitution) ! k, hierarchy (typography constitution) ! Suc k))) \<and>
   (\<forall>a b x y.
      (\<forall>r \<in> set (typography_roles (taste manifest)).
          role_in_range (roles (typography constitution)) r) \<and>
      hierarchy (typography constitution) = [a, b] \<and>
      declared_size (typography_roles (taste manifest)) a = Some x \<and>
      declared_size (typography_roles (taste manifest)) b = Some y \<and> x < y \<longrightarrow>
      \<not> tr_passed (typography_hierarchy_rule ruleset manifest constitution) \<and>
      tr_counterexample (typography_hierarchy_rule ruleset manifest constitution) =
        Some (a @ '' ('' @ String_number x @ '') should not be smaller than '' @
              b @ '' ('' @ String_number y @ '').''))"
proof -
  let ?declared = "typography_roles (taste manifest)"
  let ?defs = "roles (typography constitution)"
  let ?hier = "hierarchy (typography constitution)"
  have iff: "tr_passed (typography_hierarchy_rule ruleset manifest constitution) =
     ((\<forall>r \<in> set ?declared. role_in_range ?defs r) \<and>
      (\<forall>k. Suc k < length ?hier \<longrightarrow> pair_ordered ?declared (?hier ! k, ?hier ! Suc k)))"
    unfolding typography_hierarchy_rule_passed hierarchy_spec_def list_all_adjacent
    by (simp add: list_all_iff)
  have example: "\<not> tr_passed (typography_hierarchy_rule ruleset manifest constitution) \<and>
      tr_counterexample (typography_hierarchy_rule ruleset manifest constitution) =
        Some (a @ '' ('' @ String_number x @ '') should not be smaller than '' @
              b @ '' ('' @ String_number y @ '').'')"
    if ranges: "\<forall>r \<in> set ?declared. role_in_range ?defs r"
      and hier: "?hier = [a, b]"
      and sizes: "declared_size ?declared a = Some x" "declared_size ?declared b = Some y" "x < y"
    for a b x y
  proof -
    have loop1: "role_range_loop ?defs ?declared = (True, None)"
      using role_range_loop_cases[of ?defs ?declared] role_range_loop_passed[of ?defs ?declared] ranges
      by (auto simp add: list_all_iff)
    have map_a: "sizeByRole_of [a, b] ?declared a = Some x"
      and map_b: "sizeByRole_of [a, b] ?declared b = Some y"
      using sizes by (simp_all add: sizeByRole_of_lookup)
    show ?thesis
      using sizes(3)
      by (simp add: typography_hierarchy_rule_def Let_def loop1 hier map_a map_b buildResult_def truthy_def)
  qed
  show ?thesis using iff example by blast
qed

text \<open>Hierarchy h1 before body, declared sizes h1 = 16 and body = 20.\<close>

theorem typography_hierarchy_rule_spec_witness:
  "hierarchy (typography demo_constitution) = [''h1'', ''body''] \<and>
   declared_size (typography_roles (taste inverted_manifest)) ''h1'' = Some 16 \<and>
   declared_size (typography_roles (taste inverted_manifest)) ''body'' = Some 20 \<and>
   \<not> tr_passed (typography_hierarchy_rule demo_ruleset inverted_manifest demo_constitution) \<and>
   tr_counterexample (typography_hierarchy_rule demo_ruleset inverted_manifest demo_constitution) =
     Some ''h1 (16) should not be smaller than body (20).''"
proof -
  have h: "hierarchy (typography demo_constitution) = [''h1'', ''body'']"
    by (simp add: demo_constitution_def)
  have d: "declared_size (typography_roles (taste inverted_manifest)) ''h1'' = Some 16"
          "declared_size (typography_roles (taste inverted_manifest)) ''body'' = Some 20"
    by (simp_all add: declared_size_def inverted_manifest_def)
  have r: "\<forall>r \<in> set (typography_roles (taste inverted_manifest)).
             role_in_range (roles (typography demo_constitution)) r"
    by (simp add: inverted_manifest_def demo_constitution_def role_in_range_def)
  have n: "String_number 16 = ''16''" "String_number 20 = ''20''"
    by (simp_all add: String_number_def digits.simps)
  have "(16::int) < 20" by simp
  with typography_hierarchy_rule_spec[of demo_ruleset inverted_manifest demo_constitution] h d r
  have "\<not> tr_passed (typography_hierarchy_rule demo_ruleset inverted_manifest demo_constitution) \<and>
      tr_counterexample (typography_hierarchy_rule demo_ruleset inverted_manifest demo_constitution) =
        Some (''h1'' @ '' ('' @ String_number 16 @ '') should not be smaller than '' @
              ''body'' @ '' ('' @ String_number 20 @ '').'')"
    by blast
  then show ?thesis using h d by (simp add: n)
qed

text \<open>
  The patterns rule against the words of the specification. Whenever the patterns block
  has a result, the rule passes exactly when every declared usage is permitted, and a
  failing result is the result on the first usage that is not permitted alone. The block
  has a result whenever no declared pattern is named like a member of
  \<^verbatim>\<open>Object.prototype\<close>.
\<close>

lemma patterns_intent_rule_on_results:
  assumes "patterns_intent_rule ruleset manifest constitution intent = Inr r"
  shows "tr_passed r =
           (\<forall>entry \<in> set (patterns_usage (taste manifest)). usage_permitted constitution intent entry)"
    and "find (\<lambda>e. \<not> usage_permitted constitution intent e) (patterns_usage (taste manifest)) = Some entry
           \<Longrightarrow> \<not> tr_passed r \<and>
               patterns_intent_rule ruleset (with_usage manifest [entry]) constitution intent = Inr r"
proof -
  show iff: "tr_passed r =
           (\<forall>entry \<in> set (patterns_usage (taste manifest)). usage_permitted constitution intent entry)"
    by (simp add: patterns_intent_rule_passed[OF assms] list_all_iff)
  assume f: "find (\<lambda>e. \<not> usage_permitted constitution intent e) (patterns_usage (taste manifest)) = Some entry"
  then have "entry \<in> set (patterns_usage (taste manifest)) \<and> \<not> usage_permitted constitution intent entry"
    unfolding find_Some_iff by (metis nth_mem)
  with iff have "\<not> tr_passed r" by blast
  with patterns_intent_rule_first[OF assms f]
  show "\<not> tr_passed r \<and>
        patterns_intent_rule ruleset (with_usage manifest [entry]) constitution intent = Inr r"
    by simp
qed

text \<open>
  C4 (a defect of the code). The claim is what the block intends: a pattern without an
  entry in either mapping has no permitted intent, so its usage fails the rule. The code
  reads the mappings with a bracket lookup, which for a pattern named like a member of
  \<^verbatim>\<open>Object.prototype\<close> finds the inherited member. For the allowed pattern
  ``constructor'' with no entry in any mapping, the claim judges the usage against the
  empty set, and the code throws a \<^verbatim>\<open>TypeError\<close>: the patterns block has no result and
  the evaluation returns no report.
\<close>

theorem constructor_pattern_rejects:
  "patterns constructor_constitution = Some \<lparr>allowed = [''constructor''], intents = Some Map.empty\<rparr> \<and>
   patterns_usage (taste constructor_manifest) = [\<lparr>usage_pattern = ''constructor'', usage_intent = ''confirm''\<rparr>] \<and>
   permitted_intents constructor_constitution plain_intent ''constructor'' = [] \<and>
   \<not> usage_permitted constructor_constitution plain_intent
        \<lparr>usage_pattern = ''constructor'', usage_intent = ''confirm''\<rparr> \<and>
   patterns_intent_rule demo_ruleset constructor_manifest constructor_constitution plain_intent =
     Inl (TypeError ''allowedIntents.includes is not a function'') \<and>
   evaluateTaste demo_taste_host constructor_manifest constructor_constitution plain_intent verbose_options =
     Inl (TypeError ''allowedIntents.includes is not a function'')"
proof -
  have pol: "patterns constructor_constitution =
               Some \<lparr>allowed = [''constructor''], intents = Some Map.empty\<rparr>"
    by (simp add: constructor_constitution_def)
  have usage: "patterns_usage (taste constructor_manifest) =
                 [\<lparr>usage_pattern = ''constructor'', usage_intent = ''confirm''\<rparr>]"
    by (simp add: constructor_manifest_def)
  have perm: "permitted_intents constructor_constitution plain_intent ''constructor'' = []"
    by (simp add: permitted_intents_def mapping_entry_def plain_intent_def pol)
  have judged: "\<not> usage_permitted constructor_constitution plain_intent
        \<lparr>usage_pattern = ''constructor'', usage_intent = ''confirm''\<rparr>"
    by (simp add: usage_permitted_def pol perm)
  have look: "nullish_or (nullish_or (opt_lookup (allowed_patterns plain_intent) ''constructor'')
                                     (opt_lookup (Some Map.empty) ''constructor'')) (Own ([]::string list))
              = Inherited"
    by (simp add: nullish_or_def opt_lookup_def record_get_def plain_intent_def Object_prototype_keys_def)
  have rule: "patterns_intent_rule demo_ruleset constructor_manifest constructor_constitution plain_intent =
     Inl (TypeError ''allowedIntents.includes is not a function'')"
    by (simp add: patterns_intent_rule_def Let_def usage pol look new_Set_def Set_add_def Set_has_def)
  have load: "loadRuleset demo_taste_host (rulesetPath verbose_options) = Inr demo_ruleset"
    by (simp add: verbose_options_def demo_taste_host_loads)
  have vb: "verbose_of verbose_options"
    by (simp add: verbose_of_def verbose_options_def)
  have run: "evaluateTaste demo_taste_host constructor_manifest constructor_constitution plain_intent
               verbose_options = Inl (TypeError ''allowedIntents.includes is not a function'')"
    unfolding evaluateTaste_cases[OF load] using vb by (simp add: rule)
  from pol usage perm judged rule run show ?thesis by blast
qed

section \<open>Properties of whole evaluations\<close>

lemma getRuleMeta_id: "m_id (getRuleMeta i ruleset) = i"
  by (auto simp add: getRuleMeta_def find_Some_iff split: option.splits)

lemma first_nine_rule_ids:
  "map tr_id (first_nine_rules ruleset manifest constitution intent) =
     [''typography.max-sizes.rule'', ''typography.hierarchy.rule'', ''spacing.allowed-values.rule'',
      ''spacing.variance.rule'', ''color.allowed.rule'', ''color.contrast.rule'', ''density.limit.rule'',
      ''consistency.allowed.rule'', ''consistency.variance.rule'']"
proof -
  have "tr_id (typography_max_sizes_rule ruleset manifest constitution) = ''typography.max-sizes.rule''"
    by (simp add: typography_max_sizes_rule_def buildResult_def Let_def getRuleMeta_id)
  moreover have "tr_id (typography_hierarchy_rule ruleset manifest constitution) = ''typography.hierarchy.rule''"
    by (simp add: typography_hierarchy_rule_def buildResult_def Let_def split_def getRuleMeta_id)
  moreover have "tr_id (spacing_allowed_values_rule ruleset manifest constitution) = ''spacing.allowed-values.rule''"
    by (simp add: spacing_allowed_values_rule_def buildResult_def Let_def getRuleMeta_id)
  moreover have "tr_id (spacing_variance_rule ruleset manifest constitution) = ''spacing.variance.rule''"
    by (simp add: spacing_variance_rule_def buildResult_def Let_def getRuleMeta_id)
  moreover have "tr_id (color_allowed_rule ruleset manifest constitution) = ''color.allowed.rule''"
    by (simp add: color_allowed_rule_def buildResult_def Let_def getRuleMeta_id)
  moreover have "tr_id (color_contrast_rule ruleset manifest constitution) = ''color.contrast.rule''"
    by (simp add: color_contrast_rule_def buildResult_def Let_def getRuleMeta_id)
  moreover have "tr_id (density_limit_rule ruleset manifest intent) = ''density.limit.rule''"
    by (simp add: density_limit_rule_def buildResult_def Let_def getRuleMeta_id split: option.splits)
  moreover have "tr_id (consistency_allowed_rule ruleset manifest constitution) = ''consistency.allowed.rule''"
    by (simp add: consistency_allowed_rule_def buildResult_def Let_def getRuleMeta_id)
  moreover have "tr_id (consistency_variance_rule ruleset manifest constitution) = ''consistency.variance.rule''"
    by (simp add: consistency_variance_rule_def buildResult_def Let_def getRuleMeta_id)
  ultimately show ?thesis
    by (simp add: first_nine_rules_def)
qed

lemma patterns_intent_rule_id:
  "patterns_intent_rule ruleset manifest constitution intent = Inr r \<Longrightarrow> tr_id r = ''patterns.intent.rule''"
  by (auto simp add: patterns_intent_rule_def buildResult_def Let_def getRuleMeta_id split: sum.splits)

lemma upto_first_failure_take:
  "k < length xs \<Longrightarrow> (\<forall>j < k. tr_passed (xs ! j)) \<Longrightarrow> \<not> tr_passed (xs ! k)
     \<Longrightarrow> upto_first_failure xs = take (Suc k) xs"
proof (induction xs arbitrary: k)
  case Nil
  then show ?case by simp
next
  case (Cons x xs)
  show ?case
  proof (cases k)
    case 0
    with Cons.prems show ?thesis by simp
  next
    case (Suc n)
    with Cons.prems have "tr_passed x" by auto
    moreover have "upto_first_failure xs = take (Suc n) xs"
    proof (rule Cons.IH)
      show "n < length xs" using Cons.prems(1) Suc by simp
      show "\<forall>j < n. tr_passed (xs ! j)"
      proof (intro allI impI)
        fix j assume "j < n"
        then have "Suc j < k" using Suc by simp
        with Cons.prems(2) have "tr_passed ((x # xs) ! Suc j)" by blast
        then show "tr_passed (xs ! j)" by simp
      qed
      show "\<not> tr_passed (xs ! n)" using Cons.prems(3) Suc by simp
    qed
    ultimately show ?thesis using Suc by simp
  qed
qed

lemma not_Passed: "(s \<noteq> Passed) = (s = Failed)"
  by (cases s) simp_all

lemma loadRuleset_clock: "loadRuleset (h\<lparr>now := t\<rparr>) p = loadRuleset h p"
  by (simp add: loadRuleset_def defaultRulesetPath_def cong: option.case_cong)

lemma crowded_fails_first:
  "\<not> tr_passed (typography_max_sizes_rule demo_ruleset crowded_manifest demo_constitution)"
  by (simp add: typography_max_sizes_rule_def crowded_manifest_def demo_constitution_def buildResult_def
        Let_def new_Set_def Set_add_def Set_size_def)

lemma demo_contract_invalid:
  "buildRendererValidationReport demo_contract_host OtherDoc (RegistryDoc demo_registry) no_options =
     Inr (validateDocuments demo_contract_host (demo_validate ContractSchema) (demo_validate RegistrySchema)
            OtherDoc (RegistryDoc demo_registry))"
  by (rule buildRendererValidationReport_loaded[OF demo_contract_host_loads(1) demo_contract_host_loads(2)
        demo_contract_host_loads(3) demo_contract_host_loads(3)])

lemma demo_taste_stops:
  "evaluateTaste (demo_taste_host\<lparr>now := t\<rparr>) crowded_manifest demo_constitution demo_intent default_options =
     Inr (stoppedReport (demo_taste_host\<lparr>now := t\<rparr>) crowded_manifest demo_ruleset
            [typography_max_sizes_rule demo_ruleset crowded_manifest demo_constitution])"
proof -
  have l: "loadRuleset (demo_taste_host\<lparr>now := t\<rparr>) (rulesetPath default_options) = Inr demo_ruleset"
    by (simp add: default_options_def demo_taste_host_loads loadRuleset_clock)
  have ff: "failFast_of default_options" and vb: "\<not> verbose_of default_options"
    by (simp_all add: failFast_of_def verbose_of_def default_options_def)
  show ?thesis
    unfolding evaluateTaste_cases[OF l]
    using crowded_fails_first ff vb by (simp add: first_nine_rules_def)
qed

text \<open>
  C1. Every report that \<open>buildRendererValidationReport\<close> or \<open>evaluateTaste\<close> returns,
  from an early return or from the last one, has as its errors exactly the failing
  entries of its rules, in their order, and has status passed exactly when there are no
  errors.
\<close>

theorem errors_are_failing_rules:
  "(buildRendererValidationReport h mr rr opts = Inr r \<longrightarrow>
      rv_errors r = filter (\<lambda>rule. \<not> vr_passed rule) (rv_rules r) \<and>
      (rv_status r = Passed) = (rv_errors r = [])) \<and>
   (evaluateTaste th m c i topts = Inr t \<longrightarrow>
      tp_errors t = filter (\<lambda>rule. \<not> tr_passed rule) (tp_rules t) \<and>
      (tp_status t = Passed) = (tp_errors t = []))"
proof (intro conjI impI)
  assume run: "buildRendererValidationReport h mr rr opts = Inr r"
  from buildRendererValidationReport_Inr[OF run]
  obtain cv rv where r: "r = validateDocuments h cv rv mr rr"
    by (elim exE)
  show "rv_errors r = filter (\<lambda>rule. \<not> vr_passed rule) (rv_rules r)"
    unfolding r by (rule validateDocuments_errors)
  show "(rv_status r = Passed) = (rv_errors r = [])"
    unfolding r by (rule validateDocuments_status)
next
  assume run: "evaluateTaste th m c i topts = Inr t"
  from evaluateTaste_Inr[OF run]
  obtain ruleset where load: "loadRuleset th (rulesetPath topts) = Inr ruleset"
    by (elim exE)
  show "tp_errors t = filter (\<lambda>rule. \<not> tr_passed rule) (tp_rules t)"
    by (rule taste_report_rules(2)[OF load run])
  show "(tp_status t = Passed) = (tp_errors t = [])"
    by (rule taste_report_rules(3)[OF load run])
qed

text \<open>
  The report of the schema gate on a document that is no manifest, and the truncated
  report of a manifest with too many font sizes.
\<close>

theorem errors_are_failing_rules_witness:
  "(\<exists>r. buildRendererValidationReport demo_contract_host OtherDoc (RegistryDoc demo_registry) no_options
           = Inr r \<and>
        rv_errors r = filter (\<lambda>rule. \<not> vr_passed rule) (rv_rules r) \<and>
        length (rv_rules r) = 2 \<and> length (rv_errors r) = 1 \<and> rv_status r = Failed) \<and>
   (\<exists>t. evaluateTaste demo_taste_host crowded_manifest demo_constitution demo_intent default_options
           = Inr t \<and>
        tp_errors t = filter (\<lambda>rule. \<not> tr_passed rule) (tp_rules t) \<and>
        length (tp_rules t) = 1 \<and> length (tp_errors t) = 1 \<and> tp_status t = Failed)"
proof -
  let ?r = "validateDocuments demo_contract_host (demo_validate ContractSchema) (demo_validate RegistrySchema)
            OtherDoc (RegistryDoc demo_registry)"
  let ?t = "stoppedReport demo_taste_host crowded_manifest demo_ruleset
            [typography_max_sizes_rule demo_ruleset crowded_manifest demo_constitution]"
  have stops: "evaluateTaste demo_taste_host crowded_manifest demo_constitution demo_intent default_options
                 = Inr ?t"
    using demo_taste_stops[of "now demo_taste_host"] by simp
  have verdicts: "\<not> fst (demo_validate ContractSchema OtherDoc)"
                 "fst (demo_validate RegistrySchema (RegistryDoc demo_registry))"
    by (simp_all add: demo_validate_def)
  have r_rules: "rv_rules ?r = [manifest_schema_rule (demo_validate ContractSchema) OtherDoc,
                                registry_schema_rule (demo_validate RegistrySchema) (RegistryDoc demo_registry)]"
    using verdicts by (simp add: validateDocuments_def Let_def)
  have r_inv: "rv_errors ?r = filter (\<lambda>rule. \<not> vr_passed rule) (rv_rules ?r) \<and>
               (rv_status ?r = Passed) = (rv_errors ?r = [])"
    by (rule errors_are_failing_rules[THEN conjunct1, rule_format, OF demo_contract_invalid])
  then have r_err: "length (rv_errors ?r) = 1"
    using verdicts by (simp add: r_rules schema_rule_passed)
  with r_inv have r_status: "rv_status ?r = Failed"
    by (cases "rv_status ?r") auto
  have t_rules: "tp_rules ?t = [typography_max_sizes_rule demo_ruleset crowded_manifest demo_constitution]"
    by (simp add: stoppedReport_def)
  have t_inv: "tp_errors ?t = filter (\<lambda>rule. \<not> tr_passed rule) (tp_rules ?t) \<and>
               (tp_status ?t = Passed) = (tp_errors ?t = [])"
    by (rule errors_are_failing_rules[THEN conjunct2, rule_format, OF stops])
  then have t_err: "length (tp_errors ?t) = 1"
    using crowded_fails_first by (simp add: t_rules)
  with t_inv have t_status: "tp_status ?t = Failed"
    by (cases "tp_status ?t") auto
  show ?thesis
    using demo_contract_invalid r_inv r_rules r_err r_status stops t_inv t_rules t_err t_status
    by (intro conjI exI[of _ ?r] exI[of _ ?t]) simp_all
qed

text \<open>
  C3 (as the code has it). The evaluator has ten rules: the two consistency rules are
  separate blocks, each with its own early return, so nine results precede the patterns
  block. With fail-fast on and verbose off, when rule \<open>k\<close> of these nine is the first
  to fail, the evaluation returns a report whose rules are the results up to and
  including it, so exactly one rule when \<open>typography.max-sizes.rule\<close> fails. Every
  report that is returned holds the ten results cut after the first failing one in this
  mode, and all ten results, however many fail, with verbose on or fail-fast off. A
  report is returned whenever the patterns block has a result.
\<close>

theorem fail_fast_truncation:
  assumes "loadRuleset h (rulesetPath opts) = Inr ruleset"
  shows "length (first_nine_rules ruleset m c i) = 9 \<and>
         take 9 (taste_rules ruleset m c i) = first_nine_rules ruleset m c i \<and>
         (failFast_of opts \<and> \<not> verbose_of opts \<longrightarrow>
            (\<forall>k < 9. (\<forall>j < k. tr_passed (taste_rules ruleset m c i ! j)) \<and>
                      \<not> tr_passed (taste_rules ruleset m c i ! k) \<longrightarrow>
               (\<exists>t. evaluateTaste h m c i opts = Inr t \<and>
                    tp_rules t = take (Suc k) (taste_rules ruleset m c i) \<and>
                    length (tp_rules t) = Suc k)) \<and>
            (\<not> tr_passed (typography_max_sizes_rule ruleset m c) \<longrightarrow>
               (\<exists>t. evaluateTaste h m c i opts = Inr t \<and>
                    tp_rules t = [typography_max_sizes_rule ruleset m c] \<and>
                    length (tp_rules t) = 1))) \<and>
         (\<forall>t. evaluateTaste h m c i opts = Inr t \<longrightarrow>
            (failFast_of opts \<and> \<not> verbose_of opts \<longrightarrow>
               tp_rules t = upto_first_failure (taste_rules ruleset m c i)) \<and>
            (verbose_of opts \<or> \<not> failFast_of opts \<longrightarrow>
               tp_rules t = taste_rules ruleset m c i \<and> length (tp_rules t) = 10)) \<and>
         (\<forall>r. patterns_intent_rule ruleset m c i = Inr r \<longrightarrow>
            (\<exists>t. evaluateTaste h m c i opts = Inr t) \<and>
            taste_rules ruleset m c i = first_nine_rules ruleset m c i @ [r])"
proof -
  let ?nine = "first_nine_rules ruleset m c i"
  let ?all = "taste_rules ruleset m c i"
  note eq = evaluateTaste_cases[OF assms, of m c i]
  have len: "length ?nine = 9"
    by (rule length_first_nine_rules)
  have prefix: "take 9 ?all = ?nine"
    by (simp add: taste_rules_def len)
  have nth: "?all ! j = ?nine ! j" if "j < 9" for j
    using that by (simp add: taste_rules_def nth_append len)
  have stop: "\<exists>t. evaluateTaste h m c i opts = Inr t \<and> tp_rules t = take (Suc k) ?all \<and>
                  length (tp_rules t) = Suc k"
    if mode: "failFast_of opts \<and> \<not> verbose_of opts"
      and k: "k < 9" and before: "\<forall>j < k. tr_passed (?all ! j)" and at: "\<not> tr_passed (?all ! k)"
    for k
  proof -
    have before': "\<forall>j < k. tr_passed (?nine ! j)"
      using before k nth by simp
    have at': "\<not> tr_passed (?nine ! k)"
      using at k nth by simp
    have "?nine ! k \<in> set ?nine" using k len by simp
    with at' have fails: "\<not> list_all tr_passed ?nine"
      by (auto simp add: list_all_iff)
    have cut: "upto_first_failure ?nine = take (Suc k) ?nine"
      using k len before' at' by (intro upto_first_failure_take) simp_all
    have "take (Suc k) ?all = take (Suc k) ?nine"
      using k by (simp add: taste_rules_def len)
    with eq mode fails cut show ?thesis
      using k len by (simp add: stoppedReport_def)
  qed
  have first: "\<exists>t. evaluateTaste h m c i opts = Inr t \<and>
                   tp_rules t = [typography_max_sizes_rule ruleset m c] \<and> length (tp_rules t) = 1"
    if mode: "failFast_of opts \<and> \<not> verbose_of opts"
      and f: "\<not> tr_passed (typography_max_sizes_rule ruleset m c)"
  proof -
    have z: "?all ! 0 = typography_max_sizes_rule ruleset m c"
      by (simp add: taste_rules_def first_nine_rules_def)
    have t1: "take (Suc 0) ?all = [typography_max_sizes_rule ruleset m c]"
      by (simp add: taste_rules_def first_nine_rules_def)
    from stop[OF mode, of 0] f z t1 show ?thesis by simp
  qed
  have returned: "(failFast_of opts \<and> \<not> verbose_of opts \<longrightarrow> tp_rules t = upto_first_failure ?all) \<and>
                  (verbose_of opts \<or> \<not> failFast_of opts \<longrightarrow> tp_rules t = ?all \<and> length (tp_rules t) = 10)"
    if run: "evaluateTaste h m c i opts = Inr t" for t
  proof -
    note rules = taste_report_rules(1)[OF assms run]
    have "length ?all = 10" if "verbose_of opts \<or> \<not> failFast_of opts"
    proof -
      from that eq run obtain r where "patterns_intent_rule ruleset m c i = Inr r"
        by (auto split: sum.splits)
      then show ?thesis by (simp add: taste_rules_def len)
    qed
    with rules show ?thesis by auto
  qed
  have total: "(\<exists>t. evaluateTaste h m c i opts = Inr t) \<and> ?all = ?nine @ [r]"
    if p: "patterns_intent_rule ruleset m c i = Inr r" for r
    using eq by (simp add: p taste_rules_def)
  show ?thesis
    using len prefix stop first returned total by blast
qed

text \<open>
  The manifest with four font sizes: one rule under the default options, ten rules, the
  first of them failing, in a verbose evaluation.
\<close>

theorem fail_fast_truncation_witness:
  "failFast_of default_options \<and> \<not> verbose_of default_options \<and>
   \<not> tr_passed (typography_max_sizes_rule demo_ruleset crowded_manifest demo_constitution) \<and>
   tr_message (typography_max_sizes_rule demo_ruleset crowded_manifest demo_constitution) =
     ''Used 4 font sizes; allowed maximum is 3.'' \<and>
   (\<exists>t. evaluateTaste demo_taste_host crowded_manifest demo_constitution demo_intent default_options = Inr t \<and>
        tp_rules t = [typography_max_sizes_rule demo_ruleset crowded_manifest demo_constitution] \<and>
        length (tp_rules t) = 1) \<and>
   verbose_of verbose_options \<and>
   (\<exists>t. evaluateTaste demo_taste_host crowded_manifest demo_constitution demo_intent verbose_options = Inr t \<and>
        length (tp_rules t) = 10 \<and>
        \<not> tr_passed (tp_rules t ! 0))"
proof -
  have l: "loadRuleset demo_taste_host (rulesetPath default_options) = Inr demo_ruleset"
    and lv: "loadRuleset demo_taste_host (rulesetPath verbose_options) = Inr demo_ruleset"
    by (simp_all add: default_options_def verbose_options_def demo_taste_host_loads)
  have ff: "failFast_of default_options" and vb: "\<not> verbose_of default_options"
    and vv: "verbose_of verbose_options"
    by (simp_all add: failFast_of_def verbose_of_def default_options_def verbose_options_def)
  have msg: "tr_message (typography_max_sizes_rule demo_ruleset crowded_manifest demo_constitution) =
         ''Used 4 font sizes; allowed maximum is 3.''"
    by (simp add: typography_max_sizes_rule_def crowded_manifest_def demo_constitution_def buildResult_def
        Let_def new_Set_def Set_add_def Set_size_def String_number_def digits.simps)
  have plain: "plain_patterns (patterns_usage (taste crowded_manifest))"
    by (simp add: plain_patterns_def crowded_manifest_def demo_manifest_def Object_prototype_keys_def)
  from patterns_intent_rule_plain[OF plain, of demo_ruleset demo_constitution demo_intent]
  obtain r where r: "patterns_intent_rule demo_ruleset crowded_manifest demo_constitution demo_intent = Inr r"
    by (elim exE)
  note stopped = fail_fast_truncation[OF l, of crowded_manifest demo_constitution demo_intent]
  note full = fail_fast_truncation[OF lv, of crowded_manifest demo_constitution demo_intent]
  from stopped ff vb crowded_fails_first
  have a: "\<exists>t. evaluateTaste demo_taste_host crowded_manifest demo_constitution demo_intent default_options = Inr t \<and>
        tp_rules t = [typography_max_sizes_rule demo_ruleset crowded_manifest demo_constitution] \<and>
        length (tp_rules t) = 1"
    by blast
  from full r obtain t where
    run: "evaluateTaste demo_taste_host crowded_manifest demo_constitution demo_intent verbose_options = Inr t"
    by blast
  with full vv have rules: "tp_rules t = taste_rules demo_ruleset crowded_manifest demo_constitution demo_intent"
    and len: "length (tp_rules t) = 10"
    by blast+
  have "tp_rules t ! 0 = typography_max_sizes_rule demo_ruleset crowded_manifest demo_constitution"
    unfolding rules by (simp add: taste_rules_def first_nine_rules_def)
  with crowded_fails_first have "\<not> tr_passed (tp_rules t ! 0)" by simp
  with run len have b: "\<exists>t. evaluateTaste demo_taste_host crowded_manifest demo_constitution demo_intent
                              verbose_options = Inr t \<and> length (tp_rules t) = 10 \<and> \<not> tr_passed (tp_rules t ! 0)"
    by blast
  from ff vb crowded_fails_first msg a vv b show ?thesis by blast
qed

text \<open>
  C3 as stated fails in its count: a verbose evaluation of the demo documents reports
  ten rules, not nine.
\<close>

theorem verbose_report_counterexample:
  "\<exists>t. evaluateTaste demo_taste_host demo_manifest demo_constitution demo_intent verbose_options = Inr t \<and>
       verbose_of verbose_options \<and>
       length (tp_rules t) = 10 \<and> length (tp_rules t) \<noteq> 9 \<and>
       map tr_id (tp_rules t) =
         [''typography.max-sizes.rule'', ''typography.hierarchy.rule'', ''spacing.allowed-values.rule'',
          ''spacing.variance.rule'', ''color.allowed.rule'', ''color.contrast.rule'', ''density.limit.rule'',
          ''consistency.allowed.rule'', ''consistency.variance.rule'', ''patterns.intent.rule'']"
proof -
  have l: "loadRuleset demo_taste_host (rulesetPath verbose_options) = Inr demo_ruleset"
    by (simp add: verbose_options_def demo_taste_host_loads)
  have vb: "verbose_of verbose_options"
    by (simp add: verbose_of_def verbose_options_def)
  have plain: "plain_patterns (patterns_usage (taste demo_manifest))"
    by (simp add: plain_patterns_def demo_manifest_def Object_prototype_keys_def)
  from patterns_intent_rule_plain[OF plain, of demo_ruleset demo_constitution demo_intent]
  obtain r where r: "patterns_intent_rule demo_ruleset demo_manifest demo_constitution demo_intent = Inr r"
    by (elim exE)
  have run: "evaluateTaste demo_taste_host demo_manifest demo_constitution demo_intent verbose_options =
          Inr (finalReport demo_taste_host demo_manifest demo_ruleset
                 (first_nine_rules demo_ruleset demo_manifest demo_constitution demo_intent @ [r]))"
    unfolding evaluateTaste_cases[OF l] using vb by (simp add: r)
  have rules: "tp_rules (finalReport demo_taste_host demo_manifest demo_ruleset
                 (first_nine_rules demo_ruleset demo_manifest demo_constitution demo_intent @ [r])) =
               first_nine_rules demo_ruleset demo_manifest demo_constitution demo_intent @ [r]"
    by (simp add: finalReport_def Let_def)
  show ?thesis
    unfolding run
    using vb by (simp add: rules length_first_nine_rules first_nine_rule_ids patterns_intent_rule_id[OF r])
qed

text \<open>
  C8. For fixed documents, options and files, two calls differ at most in the clock they
  read: the rules, the errors and the status of the two results are the same, for
  \<open>buildRendererValidationReport\<close> and for \<open>evaluateTaste\<close>, also when a call fails
  to load a file or throws.
\<close>

theorem outcome_independent_of_clock:
  "map_sum id rv_outcome (buildRendererValidationReport (h\<lparr>now := t1\<rparr>) mr rr opts) =
   map_sum id rv_outcome (buildRendererValidationReport (h\<lparr>now := t2\<rparr>) mr rr opts) \<and>
   map_sum id tp_outcome (evaluateTaste (th\<lparr>now := t1\<rparr>) m c i topts) =
   map_sum id tp_outcome (evaluateTaste (th\<lparr>now := t2\<rparr>) m c i topts)"
proof
  have paths: "defaultContractSchemaPath (h\<lparr>now := t\<rparr>) = defaultContractSchemaPath h"
              "defaultRegistrySchemaPath (h\<lparr>now := t\<rparr>) = defaultRegistrySchemaPath h" for t
    by (simp_all add: defaultContractSchemaPath_def defaultRegistrySchemaPath_def)
  have contract: "map_sum id rv_outcome (buildRendererValidationReport (h\<lparr>now := t\<rparr>) mr rr opts) =
                  map_sum id rv_outcome (buildRendererValidationReport h mr rr opts)" for t
    by (simp add: buildRendererValidationReport_def Let_def paths validateDocuments_clock
          split: sum.splits cong: option.case_cong)
  show "map_sum id rv_outcome (buildRendererValidationReport (h\<lparr>now := t1\<rparr>) mr rr opts) =
        map_sum id rv_outcome (buildRendererValidationReport (h\<lparr>now := t2\<rparr>) mr rr opts)"
    by (simp only: contract)
next
  have taste: "map_sum id tp_outcome (evaluateTaste (th\<lparr>now := t\<rparr>) m c i topts) =
               map_sum id tp_outcome (evaluateTaste th m c i topts)" for t
  proof (cases "loadRuleset th (rulesetPath topts)")
    case (Inl e)
    then show ?thesis by (simp add: evaluateTaste_def loadRuleset_clock)
  next
    case (Inr ruleset)
    then have l: "loadRuleset (th\<lparr>now := t\<rparr>) (rulesetPath topts) = Inr ruleset"
      by (simp add: loadRuleset_clock)
    show ?thesis
      unfolding evaluateTaste_cases[OF Inr] evaluateTaste_cases[OF l]
      by (simp add: tp_outcome_def stoppedReport_def finalReport_def Let_def split: sum.splits)
  qed
  show "map_sum id tp_outcome (evaluateTaste (th\<lparr>now := t1\<rparr>) m c i topts) =
        map_sum id tp_outcome (evaluateTaste (th\<lparr>now := t2\<rparr>) m c i topts)"
    by (simp only: taste)
qed

text \<open>Two evaluations a day apart: the same outcome under different timestamps.\<close>

theorem outcome_independent_of_clock_witness:
  "map_sum id rv_outcome
     (buildRendererValidationReport (demo_contract_host\<lparr>now := ''2026-01-01T00:00:00.000Z''\<rparr>)
        OtherDoc (RegistryDoc demo_registry) no_options) =
   map_sum id rv_outcome
     (buildRendererValidationReport (demo_contract_host\<lparr>now := ''2026-01-02T00:00:00.000Z''\<rparr>)
        OtherDoc (RegistryDoc demo_registry) no_options) \<and>
   map_sum id tp_outcome
     (evaluateTaste (demo_taste_host\<lparr>now := ''2026-01-01T00:00:00.000Z''\<rparr>)
        crowded_manifest demo_constitution demo_intent default_options) =
   map_sum id tp_outcome
     (evaluateTaste (demo_taste_host\<lparr>now := ''2026-01-02T00:00:00.000Z''\<rparr>)
        crowded_manifest demo_constitution demo_intent default_options) \<and>
   map_sum id tp_generated_at
     (evaluateTaste (demo_taste_host\<lparr>now := ''2026-01-01T00:00:00.000Z''\<rparr>)
        crowded_manifest demo_constitution demo_intent default_options) = Inr ''2026-01-01T00:00:00.000Z'' \<and>
   map_sum id tp_generated_at
     (evaluateTaste (demo_taste_host\<lparr>now := ''2026-01-02T00:00:00.000Z''\<rparr>)
        crowded_manifest demo_constitution demo_intent default_options) = Inr ''2026-01-02T00:00:00.000Z''"
proof -
  have stamp: "map_sum id tp_generated_at
     (evaluateTaste (demo_taste_host\<lparr>now := t\<rparr>) crowded_manifest demo_constitution demo_intent
        default_options) = Inr t" for t
    by (simp add: demo_taste_stops stoppedReport_def)
  show ?thesis
    using outcome_independent_of_clock[where h = demo_contract_host and th = demo_taste_host
            and ?t1.0 = "''2026-01-01T00:00:00.000Z''" and ?t2.0 = "''2026-01-02T00:00:00.000Z''"]
    by (simp add: stamp)
qed

end
